theory Spec2Isabelle
  imports Complex_Main "HOL-Library.AList"
begin

section \<open>Shared data: Python values\<close>

text \<open>
  Python strings are modelled as \<^typ>\<open>string\<close>, one \<^typ>\<open>char\<close> per code point
  (code points 0 to 255).  A Python \<open>float\<close> is only ever carried around by the code
  modelled here, never computed with, except in the particle swarm, which has its own
  arithmetic parameter.  A \<open>dict\<close> with string keys is an association list in insertion
  order; \<open>d[k] = v\<close> is \<^const>\<open>AList.update\<close>, which overwrites in place or appends.
\<close>

datatype pyfloat = Finite rat | PosInf | NegInf | NaN

datatype json =
    JNull
  | JBool bool
  | JInt int
  | JFloat pyfloat
  | JStr string
  | JArr "json list"
  | JObj "(string \<times> json) list"

type_synonym 'v dict = "(string \<times> 'v) list"

text \<open>\<open>d.get(k, default)\<close>\<close>

definition dict_get :: "'v dict \<Rightarrow> string \<Rightarrow> 'v \<Rightarrow> 'v" where
  "dict_get d k dflt = (case map_of d k of None \<Rightarrow> dflt | Some v \<Rightarrow> v)"

section \<open>\<open>cognitive-ecology/reproducible_ai_builder.py\<close>: executing a build\<close>

record BuildComponent =
  comp_name :: string
  comp_version :: string
  source_hash :: string
  build_inputs :: "string list"
  build_outputs :: "string list"
  comp_build_system :: string
  configuration :: "json dict"
  environment_variables :: "string dict"

record BuildManifest =
  manifest_id :: string
  target_name :: string
  target_version :: string
  build_timestamp :: string
  components :: "BuildComponent list"
  dependency_graph :: "string list dict"
  build_environment :: "json dict"
  verification_checksums :: "string dict"

text \<open>The dictionaries the three helpers return, one record per dictionary shape.\<close>

record build_env =
  environment_ready :: bool
  env_id :: string

record component_result =
  success :: bool
  build_time :: pyfloat
  output_hash :: string
  artifacts :: "string list"

record verification_results =
  all_verified :: bool
  verification_details :: "json dict"
  failed_verifications :: "json list"

text \<open>
  \<open>build_results\<close>: the key \<open>"verification_results"\<close> starts as the empty dictionary
  (\<open>None\<close> here) and the key \<open>"error"\<close> is absent (\<open>None\<close>) unless the \<open>except\<close> branch
  sets it.
\<close>

record build_results =
  res_manifest_id :: string
  build_status :: string
  component_results :: "component_result dict"
  res_verification :: "verification_results option"
  build_artifacts :: "string list"
  build_log :: "string list"
  res_error :: "string option"

definition setup_build_environment :: "json dict \<Rightarrow> build_env" where
  "setup_build_environment env_spec =
     \<lparr>environment_ready = True, env_id = ''build_env_001''\<rparr>"

definition build_component :: "BuildComponent \<Rightarrow> build_env \<Rightarrow> component_result" where
  "build_component component benv =
     \<lparr>success = True, build_time = Finite (85 / 2), output_hash = ''abc123def456'',
      artifacts = build_outputs component\<rparr>"

definition verify_build_outputs :: "BuildManifest \<Rightarrow> verification_results" where
  "verify_build_outputs manifest =
     \<lparr>all_verified = True, verification_details = [], failed_verifications = []\<rparr>"

text \<open>
  The \<open>for component in manifest.components\<close> loop.  \<open>Inl\<close> is the early
  \<open>return build_results\<close> of a failed component, \<open>Inr\<close> the results after the
  whole list.
\<close>

fun build_loop ::
  "build_env \<Rightarrow> BuildComponent list \<Rightarrow> build_results \<Rightarrow> build_results + build_results" where
  "build_loop benv [] br = Inr br"
| "build_loop benv (component # rest) br =
     (let component_result = build_component component benv;
          br1 = br\<lparr>component_results :=
                  AList.update (comp_name component) component_result (component_results br)\<rparr>
      in if \<not> success component_result
         then Inl (br1\<lparr>build_status := ''failed''\<rparr>)
         else build_loop benv rest br1)"

definition execute_reproducible_build :: "BuildManifest \<Rightarrow> build_results" where
  "execute_reproducible_build manifest =
     (let br0 = \<lparr>res_manifest_id = manifest_id manifest, build_status = ''in_progress'',
                 component_results = [], res_verification = None, build_artifacts = [],
                 build_log = [], res_error = None\<rparr>;
          benv = setup_build_environment (build_environment manifest)
      in case build_loop benv (components manifest) br0 of
           Inl failed \<Rightarrow> failed
         | Inr br1 \<Rightarrow>
             (let vr = verify_build_outputs manifest;
                  br2 = br1\<lparr>res_verification := Some vr\<rparr>
              in if all_verified vr
                 then br2\<lparr>build_status := ''success''\<rparr>
                 else br2\<lparr>build_status := ''verification_failed''\<rparr>))"

subsection \<open>The dependency graph\<close>

text \<open>
  \<open>_resolve_dependency_graph\<close>.  The graph is a dictionary from a component key to the
  list of its dependencies.  \<open>add_dependencies\<close> is the inner function of that name,
  \<open>add_inputs\<close> its loop \<open>for dep in component.build_inputs\<close>; both work on the
  graph built so far.
\<close>

type_synonym graph = "string list dict"

text \<open>\<open>graph[key].append(dep)\<close>, for a key that is in the graph (as \<open>component_key\<close> is
  when the loop runs).\<close>

definition append_dependency :: "string \<Rightarrow> string \<Rightarrow> graph \<Rightarrow> graph" where
  "append_dependency key dep graph =
     map (\<lambda>(k, ds). if k = key then (k, ds @ [dep]) else (k, ds)) graph"

function add_dependencies :: "BuildComponent dict \<Rightarrow> string \<Rightarrow> graph \<Rightarrow> graph"
  and add_inputs :: "BuildComponent dict \<Rightarrow> string \<Rightarrow> string list \<Rightarrow> graph \<Rightarrow> graph" where
  "add_dependencies registry component_key graph =
     (if component_key \<in> fst ` set graph then graph
      else (let graph1 = AList.update component_key [] graph
            in case map_of registry component_key of
                 None \<Rightarrow> graph1
               | Some component \<Rightarrow>
                   add_inputs registry component_key (build_inputs component) graph1))"
| "add_inputs registry component_key [] graph = graph"
| "add_inputs registry component_key (dep # rest) graph =
     add_inputs registry component_key rest
       (add_dependencies registry dep (append_dependency component_key dep graph))"
  by pat_completeness auto

text \<open>The calls terminate: the graph only gains keys, and each key of the registry is
  expanded once.\<close>

lemma keys_append_dependency [simp]: "fst ` set (append_dependency key dep graph) = fst ` set graph"
  by (force simp: append_dependency_def image_iff split: if_splits)

lemma keys_update: "fst ` set (AList.update k v graph) = insert k (fst ` set graph)"
  using dom_update [of k v graph] by (simp add: dom_map_of_conv_image_fst)

lemma add_dependencies_grows_dom:
  "add_dependencies_add_inputs_dom (Inl (registry, key, graph)) \<Longrightarrow>
     fst ` set graph \<subseteq> fst ` set (add_dependencies registry key graph)"
  "add_dependencies_add_inputs_dom (Inr (registry, key, ds, graph)) \<Longrightarrow>
     fst ` set graph \<subseteq> fst ` set (add_inputs registry key ds graph)"
proof (induction registry key graph and registry key ds graph
    rule: add_dependencies_add_inputs.pinduct)
  case (1 registry component_key graph)
  then show ?case
    by (auto simp: add_dependencies.psimps keys_update Let_def split: option.splits
        simp del: image_insert)
next
  case (2 registry component_key graph)
  then show ?case by (simp add: add_inputs.psimps)
next
  case (3 registry component_key dep rest graph)
  then show ?case by (auto simp: add_inputs.psimps)
qed

definition add_measure ::
  "(BuildComponent dict \<times> string \<times> graph) + (BuildComponent dict \<times> string \<times> string list \<times> graph)
   \<Rightarrow> nat \<times> nat" where
  "add_measure x =
     (case x of
        Inl (registry, key, graph) \<Rightarrow>
          (2 * card (fst ` set registry - fst ` set graph) + 1, 0)
      | Inr (registry, key, ds, graph) \<Rightarrow>
          (2 * card (fst ` set registry - fst ` set graph) + 2, length ds))"

termination add_dependencies
proof (relation "inv_image (less_than <*lex*> less_than) add_measure")
  show "wf (inv_image (less_than <*lex*> less_than) add_measure)"
    by (intro wf_inv_image wf_lex_prod wf_less_than)
next
  fix registry :: "BuildComponent dict" and component_key :: string and graph graph1 :: graph
    and component :: BuildComponent
  assume a: "component_key \<notin> fst ` set graph" "graph1 = AList.update component_key [] graph"
    "map_of registry component_key = Some component"
  from a(3) have "component_key \<in> fst ` set registry"
    by (metis map_of_eq_None_iff option.distinct(1))
  with a(1) have "card (fst ` set registry - insert component_key (fst ` set graph))
      < card (fst ` set registry - fst ` set graph)"
    by (intro psubset_card_mono) auto
  then show "(Inr (registry, component_key, build_inputs component, graph1),
              Inl (registry, component_key, graph))
        \<in> inv_image (less_than <*lex*> less_than) add_measure"
    by (simp add: add_measure_def a(2) keys_update del: image_insert)
next
  fix registry :: "BuildComponent dict" and component_key dep :: string
    and rest :: "string list" and graph :: graph
  show "(Inl (registry, dep, append_dependency component_key dep graph),
         Inr (registry, component_key, dep # rest, graph))
        \<in> inv_image (less_than <*lex*> less_than) add_measure"
    by (simp add: add_measure_def)
next
  fix registry :: "BuildComponent dict" and component_key dep :: string
    and rest :: "string list" and graph :: graph
  assume "add_dependencies_add_inputs_dom
      (Inl (registry, dep, append_dependency component_key dep graph))"
  then have "fst ` set (append_dependency component_key dep graph)
      \<subseteq> fst ` set (add_dependencies registry dep (append_dependency component_key dep graph))"
    by (rule add_dependencies_grows_dom)
  then have "card (fst ` set registry -
        fst ` set (add_dependencies registry dep (append_dependency component_key dep graph)))
      \<le> card (fst ` set registry - fst ` set graph)"
    by (intro card_mono) auto
  then show "(Inr (registry, component_key, rest,
                add_dependencies registry dep (append_dependency component_key dep graph)),
              Inr (registry, component_key, dep # rest, graph))
        \<in> inv_image (less_than <*lex*> less_than) add_measure"
    by (auto simp: add_measure_def)
qed

declare add_dependencies.simps [simp del]

definition resolve_dependency_graph :: "BuildComponent dict \<Rightarrow> string list \<Rightarrow> graph" where
  "resolve_dependency_graph registry target_components =
     foldl (\<lambda>graph target. add_dependencies registry target graph) [] target_components"


subsection \<open>The build order\<close>

text \<open>
  \<open>_topological_sort\<close>.  The dependency graph is a dictionary from a node to the list
  of its dependencies; \<open>dependency_graph.get(node, [])\<close> is \<open>dict_get g node []\<close>.  The
  inner function \<open>visit\<close> works on the set \<open>visited\<close> and the list \<open>result\<close>;
  \<open>visit_all\<close> is the loop \<open>for dependency in ...: visit(dependency)\<close>, which is also
  the final loop over the keys of the graph.
\<close>

type_synonym visit_state = "string set \<times> string list"

function visit :: "graph \<Rightarrow> string \<Rightarrow> visit_state \<Rightarrow> visit_state"
  and visit_all :: "graph \<Rightarrow> string list \<Rightarrow> visit_state \<Rightarrow> visit_state" where
  "visit g node (visited, result) =
     (if node \<in> visited then (visited, result)
      else (case visit_all g (dict_get g node []) (insert node visited, result) of
              (visited', result') \<Rightarrow> (visited', result' @ [node])))"
| "visit_all g [] s = s"
| "visit_all g (dependency # rest) s = visit_all g rest (visit g dependency s)"
  by pat_completeness auto

text \<open>The calls terminate: a call of \<open>visit\<close> only adds to \<open>visited\<close>, and each node
  of the graph is added once.\<close>

lemma visit_grows_dom:
  "visit_visit_all_dom (Inl (g, node, s)) \<Longrightarrow> fst s \<subseteq> fst (visit g node s)"
  "visit_visit_all_dom (Inr (g, ds, s)) \<Longrightarrow> fst s \<subseteq> fst (visit_all g ds s)"
proof (induction g node s and g ds s rule: visit_visit_all.pinduct)
  case (1 g node visited result)
  then show ?case
    by (auto simp: visit.psimps split: prod.splits)
next
  case (2 g s)
  then show ?case by (simp add: visit_all.psimps)
next
  case (3 g dependency rest s)
  then show ?case by (auto simp: visit_all.psimps)
qed

definition visit_measure :: "(graph \<times> string \<times> visit_state) + (graph \<times> string list \<times> visit_state) \<Rightarrow> nat \<times> nat" where
  "visit_measure x =
     (case x of
        Inl (g, node, (visited, result)) \<Rightarrow> (2 * card (fst ` set g - visited) + 1, 0)
      | Inr (g, ds, (visited, result)) \<Rightarrow>
          (2 * card (fst ` set g - visited) + (if ds = [] then 0 else 2), length ds))"

termination visit
proof (relation "inv_image (less_than <*lex*> less_than) visit_measure")
  show "wf (inv_image (less_than <*lex*> less_than) visit_measure)"
    by (intro wf_inv_image wf_lex_prod wf_less_than)
next
  fix g :: graph and node :: string and visited :: "string set" and result :: "string list"
  assume "node \<notin> visited"
  show "(Inr (g, dict_get g node [], insert node visited, result), Inl (g, node, visited, result))
        \<in> inv_image (less_than <*lex*> less_than) visit_measure"
  proof (cases "node \<in> fst ` set g")
    case True
    with \<open>node \<notin> visited\<close> have "card (fst ` set g - insert node visited) < card (fst ` set g - visited)"
      by (intro psubset_card_mono) auto
    then show ?thesis by (simp add: visit_measure_def)
  next
    case False
    then have "map_of g node = None" by (simp add: map_of_eq_None_iff)
    then have "dict_get g node [] = []" by (simp add: dict_get_def)
    moreover from False have "fst ` set g - insert node visited = fst ` set g - visited" by auto
    ultimately show ?thesis by (simp add: visit_measure_def)
  qed
next
  fix g :: graph and dependency :: string and rest :: "string list" and s :: visit_state
  show "(Inl (g, dependency, s), Inr (g, dependency # rest, s))
        \<in> inv_image (less_than <*lex*> less_than) visit_measure"
    by (cases s) (simp add: visit_measure_def)
next
  fix g :: graph and dependency :: string and rest :: "string list" and s :: visit_state
  assume "visit_visit_all_dom (Inl (g, dependency, s))"
  then have sub: "fst s \<subseteq> fst (visit g dependency s)" by (rule visit_grows_dom)
  obtain visited result where s: "s = (visited, result)" by (cases s)
  obtain visited' result' where s': "visit g dependency s = (visited', result')"
    by (cases "visit g dependency s")
  from sub s s' have "card (fst ` set g - visited') \<le> card (fst ` set g - visited)"
    by (intro card_mono) auto
  moreover from s s' have "visit g dependency (visited, result) = (visited', result')" by simp
  ultimately show "(Inr (g, rest, visit g dependency s), Inr (g, dependency # rest, s))
        \<in> inv_image (less_than <*lex*> less_than) visit_measure"
    by (auto simp: visit_measure_def s)
qed

definition topological_sort :: "graph \<Rightarrow> string list" where
  "topological_sort g = snd (visit_all g (map fst g) ({}, []))"


declare visit.simps [simp del]

text \<open>\<open>d\<close> is a dependency of \<open>n\<close>.\<close>

definition edges :: "graph \<Rightarrow> (string \<times> string) set" where
  "edges g = {(n, d). d \<in> set (dict_get g n [])}"

text \<open>Every dependency named in the graph is a key of the graph.\<close>

definition closed_graph :: "graph \<Rightarrow> bool" where
  "closed_graph g = (\<forall>(n, ds)\<in>set g. set ds \<subseteq> fst ` set g)"

text \<open>The same, where the one node \<open>key\<close> need not be a key yet.\<close>

definition closed_up_to :: "graph \<Rightarrow> string \<Rightarrow> bool" where
  "closed_up_to g key = (\<forall>(n, ds)\<in>set g. set ds \<subseteq> insert key (fst ` set g))"

definition component_with_inputs :: "string \<Rightarrow> string list \<Rightarrow> BuildComponent" where
  "component_with_inputs n inputs =
     \<lparr>comp_name = n, comp_version = ''1.0.0'', source_hash = [], build_inputs = inputs,
      build_outputs = [], comp_build_system = ''generic'', configuration = [],
      environment_variables = []\<rparr>"

definition example_registry :: "BuildComponent dict" where
  "example_registry =
     [(''app'', component_with_inputs ''app'' [''lib'', ''core'']),
      (''lib'', component_with_inputs ''lib'' [''core''])]"

definition example_graph :: graph where
  "example_graph = [(''app'', [''lib'', ''core'']), (''lib'', [''core'']), (''core'', [])]"

definition cyclic_graph :: graph where
  "cyclic_graph = [(''a'', [''b'']), (''b'', [''a''])]"

text \<open>
  \<open>deps_before g S xs\<close>: every dependency of an element of \<open>xs\<close> is in \<open>S\<close>, or
  earlier in \<open>xs\<close>, or depends itself on the element (then the two lie on a cycle).
\<close>

fun deps_before :: "graph \<Rightarrow> string set \<Rightarrow> string list \<Rightarrow> bool" where
  "deps_before g S [] = True"
| "deps_before g S (m # ms) =
     ((\<forall>d\<in>set (dict_get g m []). d \<in> S \<or> (d, m) \<in> (edges g)\<^sup>*) \<and>
      deps_before g (insert m S) ms)"

text \<open>
  What a call of \<open>visit\<close> or \<open>visit_all\<close> on the nodes \<open>roots\<close> does to the state: it
  appends new, distinct, so far unvisited nodes to \<open>result\<close> and adds them to
  \<open>visited\<close>; afterwards the roots are visited; each new node is reachable from a root.
\<close>

definition visit_post :: "graph \<Rightarrow> string set \<Rightarrow> visit_state \<Rightarrow> visit_state \<Rightarrow> bool" where
  "visit_post g roots s s' =
     (\<exists>new. snd s' = snd s @ new \<and> fst s' = fst s \<union> set new \<and> distinct new \<and>
            set new \<inter> fst s = {} \<and> roots \<subseteq> fst s' \<and>
            (\<forall>m\<in>set new. \<exists>r\<in>roots. (r, m) \<in> (edges g)\<^sup>*) \<and>
            deps_before g (fst s) new)"

section \<open>\<open>blueprints/guix_builder.py\<close>: blueprints\<close>

record PackageSpec =
  pkg_name :: string
  pkg_version :: string
  pkg_source :: string
  pkg_build_system :: string
  dependencies :: "string list"
  build_args :: "json dict"
  patches :: "string list"
  pkg_environment :: "string dict"
  checksum :: "string option"

record EnvironmentSpec =
  env_name :: string
  description :: string
  base_system :: string
  packages :: "PackageSpec list"
  environment_vars :: "string dict"
  services :: "json dict list"
  volumes :: "string list"
  network_config :: "json dict"
  ai_specific :: "json dict"

record BuildBlueprint =
  bp_name :: string
  bp_version :: string
  created_at :: string
  environment :: EnvironmentSpec
  build_instructions :: "string list"
  test_suite :: "string list"
  benchmark_suite :: "string list"
  deployment_config :: "json dict"
  metadata :: "json dict"
  hash_manifest :: "string dict"

record validation_results =
  has_version_pinning :: bool
  has_checksums :: bool
  has_hash_manifest :: bool
  build_deterministic :: bool
  dependencies_resolved :: bool

text \<open>The two \<open>for package in blueprint.environment.packages\<close> loops.\<close>

fun check_version_pinning :: "PackageSpec list \<Rightarrow> validation_results \<Rightarrow> validation_results" where
  "check_version_pinning [] vr = vr"
| "check_version_pinning (package # rest) vr =
     check_version_pinning rest
       (if pkg_version package = [] \<or> pkg_version package = ''latest''
        then vr\<lparr>has_version_pinning := False\<rparr> else vr)"

text \<open>\<open>not package.checksum\<close> holds for \<open>None\<close> and for the empty string.\<close>

fun check_checksums :: "PackageSpec list \<Rightarrow> validation_results \<Rightarrow> validation_results" where
  "check_checksums [] vr = vr"
| "check_checksums (package # rest) vr =
     check_checksums rest
       (if checksum package = None \<or> checksum package = Some []
        then vr\<lparr>has_checksums := False\<rparr> else vr)"

definition validate_reproducibility :: "BuildBlueprint \<Rightarrow> validation_results" where
  "validate_reproducibility blueprint =
     (let vr0 = \<lparr>has_version_pinning = True, has_checksums = True,
                 has_hash_manifest = (hash_manifest blueprint \<noteq> []),
                 build_deterministic = True, dependencies_resolved = True\<rparr>;
          vr1 = check_version_pinning (packages (environment blueprint)) vr0
      in check_checksums (packages (environment blueprint)) vr1)"

text \<open>
  \<open>dataclasses.asdict\<close>: a dataclass becomes a dictionary of its fields in declaration
  order, nested dataclasses and lists are converted recursively.
\<close>

definition str_list_json :: "string list \<Rightarrow> json" where
  "str_list_json xs = JArr (map JStr xs)"

definition str_dict_json :: "string dict \<Rightarrow> json" where
  "str_dict_json d = JObj (map (\<lambda>(k, v). (k, JStr v)) d)"

definition asdict_package :: "PackageSpec \<Rightarrow> json dict" where
  "asdict_package p =
     [(''name'', JStr (pkg_name p)),
      (''version'', JStr (pkg_version p)),
      (''source'', JStr (pkg_source p)),
      (''build_system'', JStr (pkg_build_system p)),
      (''dependencies'', str_list_json (dependencies p)),
      (''build_args'', JObj (build_args p)),
      (''patches'', str_list_json (patches p)),
      (''environment'', str_dict_json (pkg_environment p)),
      (''checksum'', (case checksum p of None \<Rightarrow> JNull | Some c \<Rightarrow> JStr c))]"

definition asdict_environment :: "EnvironmentSpec \<Rightarrow> json dict" where
  "asdict_environment e =
     [(''name'', JStr (env_name e)),
      (''description'', JStr (description e)),
      (''base_system'', JStr (base_system e)),
      (''packages'', JArr (map (\<lambda>p. JObj (asdict_package p)) (packages e))),
      (''environment_vars'', str_dict_json (environment_vars e)),
      (''services'', JArr (map JObj (services e))),
      (''volumes'', str_list_json (volumes e)),
      (''network_config'', JObj (network_config e)),
      (''ai_specific'', JObj (ai_specific e))]"

definition asdict_blueprint :: "BuildBlueprint \<Rightarrow> json dict" where
  "asdict_blueprint b =
     [(''name'', JStr (bp_name b)),
      (''version'', JStr (bp_version b)),
      (''created_at'', JStr (created_at b)),
      (''environment'', JObj (asdict_environment (environment b))),
      (''build_instructions'', str_list_json (build_instructions b)),
      (''test_suite'', str_list_json (test_suite b)),
      (''benchmark_suite'', str_list_json (benchmark_suite b)),
      (''deployment_config'', JObj (deployment_config b)),
      (''metadata'', JObj (metadata b)),
      (''hash_manifest'', str_dict_json (hash_manifest b))]"

text \<open>\<open>sep.join(xs)\<close>\<close>

fun str_join :: "string \<Rightarrow> string list \<Rightarrow> string" where
  "str_join sep [] = []"
| "str_join sep [x] = x"
| "str_join sep (x # y # ys) = x @ sep @ str_join sep (y # ys)"

text \<open>
  \<open>_generate_hash_manifest\<close>.  The two library functions are parameters:
  \<open>dumps d\<close> stands for \<open>json.dumps(d, sort_keys=True)\<close> and \<open>sha256 s\<close> for
  \<open>hashlib.sha256(s.encode()).hexdigest()\<close>.  \<open>blueprint_dict.pop('hash_manifest', None)\<close>
  is \<^const>\<open>AList.delete\<close>.
\<close>

definition hash_packages ::
  "(json \<Rightarrow> string) \<Rightarrow> (string \<Rightarrow> string) \<Rightarrow> PackageSpec list \<Rightarrow> string dict \<Rightarrow> string dict" where
  "hash_packages dumps sha256 pkgs manifest =
     foldl (\<lambda>m package.
              AList.update (''package_'' @ pkg_name package)
                (sha256 (dumps (JObj (asdict_package package)))) m)
       manifest pkgs"

definition generate_hash_manifest ::
  "(json \<Rightarrow> string) \<Rightarrow> (string \<Rightarrow> string) \<Rightarrow> BuildBlueprint \<Rightarrow> string dict" where
  "generate_hash_manifest dumps sha256 blueprint =
     (let manifest0 = [];
          blueprint_dict = AList.delete ''hash_manifest'' (asdict_blueprint blueprint);
          blueprint_json = dumps (JObj blueprint_dict);
          manifest1 = AList.update ''blueprint_spec'' (sha256 blueprint_json) manifest0;
          manifest2 =
            hash_packages dumps sha256 (packages (environment blueprint)) manifest1;
          build_instructions_str = str_join [CHR 0x0A] (build_instructions blueprint)
      in AList.update ''build_instructions'' (sha256 build_instructions_str) manifest2)"

text \<open>A blueprint with one package whose checksum is set, to the empty string.\<close>

definition package_empty_checksum :: PackageSpec where
  "package_empty_checksum =
     \<lparr>pkg_name = ''pytorch'', pkg_version = ''2.1.0'', pkg_source = ''pypi'',
      pkg_build_system = ''python'', dependencies = [], build_args = [], patches = [],
      pkg_environment = [], checksum = Some []\<rparr>"

definition blueprint_empty_checksum :: BuildBlueprint where
  "blueprint_empty_checksum =
     \<lparr>bp_name = ''ml_research_blueprint'', bp_version = ''1.0'', created_at = ''t0'',
      environment =
        \<lparr>env_name = ''ml'', description = [], base_system = ''ubuntu:24.04'',
         packages = [package_empty_checksum], environment_vars = [], services = [],
         volumes = [], network_config = [], ai_specific = []\<rparr>,
      build_instructions = [], test_suite = [], benchmark_suite = [],
      deployment_config = [], metadata = [], hash_manifest = []\<rparr>"

section \<open>\<open>protocols/lsp/server.py\<close>: the language server\<close>

subsection \<open>Python string and list primitives\<close>

datatype py_error = IndexError | ValueError | TypeError string

text \<open>\<open>xs[i]\<close>: a negative index counts from the end; out of range raises.\<close>

definition py_index :: "'a list \<Rightarrow> int \<Rightarrow> py_error + 'a" where
  "py_index xs i =
     (if 0 \<le> i \<and> i < int (length xs) then Inr (xs ! nat i)
      else if - int (length xs) \<le> i \<and> i < 0 then Inr (xs ! nat (int (length xs) + i))
      else Inl IndexError)"

text \<open>\<open>xs[start:stop]\<close>: negative bounds count from the end, both are clamped.\<close>

definition py_slice :: "'a list \<Rightarrow> int \<Rightarrow> int \<Rightarrow> 'a list" where
  "py_slice xs start stop =
     (let n = int (length xs);
          s = (if start < 0 then max 0 (n + start) else min n start);
          e = (if stop < 0 then max 0 (n + stop) else min n stop)
      in take (nat (e - s)) (drop (nat s) xs))"

text \<open>
  \<open>str.isalnum\<close>, \<open>str.isspace\<close> and \<open>str.isdigit\<close> on one character, for the code
  points 0 to 255.
\<close>

definition isalnum :: "char \<Rightarrow> bool" where
  "isalnum c =
     (let n = (of_char c :: nat)
      in (0x30 \<le> n \<and> n \<le> 0x39) \<or> (0x41 \<le> n \<and> n \<le> 0x5A) \<or> (0x61 \<le> n \<and> n \<le> 0x7A) \<or>
         n = 0xAA \<or> n = 0xB2 \<or> n = 0xB3 \<or> n = 0xB5 \<or> n = 0xB9 \<or> n = 0xBA \<or>
         (0xBC \<le> n \<and> n \<le> 0xBE) \<or> (0xC0 \<le> n \<and> n \<le> 0xD6) \<or>
         (0xD8 \<le> n \<and> n \<le> 0xF6) \<or> 0xF8 \<le> n)"

definition isspace :: "char \<Rightarrow> bool" where
  "isspace c =
     (let n = (of_char c :: nat)
      in (0x09 \<le> n \<and> n \<le> 0x0D) \<or> (0x1C \<le> n \<and> n \<le> 0x20) \<or> n = 0x85 \<or> n = 0xA0)"

definition isdigit :: "char \<Rightarrow> bool" where
  "isdigit c =
     (let n = (of_char c :: nat)
      in (0x30 \<le> n \<and> n \<le> 0x39) \<or> n = 0xB2 \<or> n = 0xB3 \<or> n = 0xB9)"

definition is_ascii_digit :: "char \<Rightarrow> bool" where
  "is_ascii_digit c = (let n = (of_char c :: nat) in 0x30 \<le> n \<and> n \<le> 0x39)"

text \<open>\<open>s.isdigit()\<close> on a string: non-empty and every character a digit.\<close>

definition str_isdigit :: "string \<Rightarrow> bool" where
  "str_isdigit s = (s \<noteq> [] \<and> list_all isdigit s)"

text \<open>\<open>s.strip()\<close>\<close>

definition strip :: "string \<Rightarrow> string" where
  "strip s = rev (dropWhile isspace (rev (dropWhile isspace s)))"

text \<open>\<open>s.split(sep)\<close> for a one-character separator: never the empty list.\<close>

fun split_on :: "char \<Rightarrow> string \<Rightarrow> string list" where
  "split_on sep [] = [[]]"
| "split_on sep (c # cs) =
     (if c = sep then [] # split_on sep cs
      else (case split_on sep cs of
              [] \<Rightarrow> [[c]]
            | w # ws \<Rightarrow> (c # w) # ws))"

text \<open>\<open>str(n)\<close> for a non-negative integer, as the f-strings format it.\<close>

definition digit_char :: "nat \<Rightarrow> char" where
  "digit_char d = ''0123456789'' ! d"

fun str_nat :: "nat \<Rightarrow> string" where
  "str_nat n = (if n < 10 then [digit_char n] else str_nat (n div 10) @ [digit_char (n mod 10)])"

declare str_nat.simps [simp del]

text \<open>
  \<open>int(s)\<close> for a string that passed \<open>isdigit()\<close>: the decimal value if every character
  is one of \<open>0\<close> to \<open>9\<close>, otherwise \<open>ValueError\<close> (the superscript digits pass
  \<open>isdigit()\<close> and are refused by \<open>int\<close>).
\<close>

definition digit_val :: "char \<Rightarrow> nat" where
  "digit_val c = of_char c - 0x30"

definition py_int :: "string \<Rightarrow> py_error + int" where
  "py_int s =
     (if s \<noteq> [] \<and> list_all is_ascii_digit s
      then Inr (int (foldl (\<lambda>acc c. 10 * acc + digit_val c) 0 s))
      else Inl ValueError)"

abbreviation newline :: char where
  "newline \<equiv> CHR 0x0A"

abbreviation carriage_return :: char where
  "carriage_return \<equiv> CHR 0x0D"

subsection \<open>Framing on stdio\<close>

text \<open>
  \<open>_send_response\<close>.  The returned string is what is written to \<open>sys.stdout\<close>.
  \<open>dumps\<close> stands for \<open>json.dumps\<close>.  The standard streams are text streams that do
  not translate line ends (as on POSIX systems).
\<close>

definition lsp_send_response :: "(json \<Rightarrow> string) \<Rightarrow> json \<Rightarrow> json \<Rightarrow> string" where
  "lsp_send_response dumps msg_id result =
     (let response = JObj [(''jsonrpc'', JStr ''2.0''), (''id'', msg_id), (''result'', result)];
          content = dumps response;
          header = ''Content-Length: '' @ str_nat (length content) @
                   [carriage_return, newline, carriage_return, newline]
      in header @ content)"

text \<open>
  \<open>sys.stdin.readline()\<close> on the unread input: the line up to and including the first
  newline (or all that is left), and the input after it.  At end of input the line
  is empty.
\<close>

fun readline :: "string \<Rightarrow> string \<times> string" where
  "readline [] = ([], [])"
| "readline (c # cs) =
     (if c = newline then ([c], cs)
      else (case readline cs of (l, rest) \<Rightarrow> (c # l, rest)))"

datatype header_value = HInt int | HStr string

text \<open>\<open>key, value = line.split(":", 1)\<close> for a line that contains a colon.\<close>

definition split_colon :: "string \<Rightarrow> string \<times> string" where
  "split_colon line =
     (takeWhile (\<lambda>c. c \<noteq> CHR '':'') line, tl (dropWhile (\<lambda>c. c \<noteq> CHR '':'') line))"

text \<open>\<open>int(value.strip()) if value.strip().isdigit() else value.strip()\<close>\<close>

definition header_entry :: "string \<Rightarrow> py_error + header_value" where
  "header_entry v =
     (if str_isdigit (strip v)
      then (case py_int (strip v) of Inl e \<Rightarrow> Inl e | Inr n \<Rightarrow> Inr (HInt n))
      else Inr (HStr (strip v)))"

lemma readline_shorter:
  "readline inp = (raw, rest) \<Longrightarrow> raw \<noteq> [] \<Longrightarrow> length rest < length inp"
proof (induction inp arbitrary: raw rest)
  case Nil
  then show ?case by simp
next
  case (Cons c cs)
  show ?case
  proof (cases "c = newline")
    case True
    with Cons.prems show ?thesis by simp
  next
    case False
    obtain l r where lr: "readline cs = (l, r)" by (cases "readline cs")
    with False Cons.prems have rest: "rest = r" by simp
    show ?thesis
    proof (cases "l = []")
      case True
      with lr have "length r \<le> length cs" by (cases cs) (auto split: if_splits prod.splits)
      with rest show ?thesis by simp
    next
      case False
      from Cons.IH [OF lr False] rest show ?thesis by simp
    qed
  qed
qed

lemma readline_strip_shorter:
  "(raw, rest) = readline inp \<Longrightarrow> strip raw \<noteq> [] \<Longrightarrow> length rest < length inp"
proof -
  assume r: "(raw, rest) = readline inp" and s: "strip raw \<noteq> []"
  from s have "raw \<noteq> []" by (auto simp: strip_def)
  with r show ?thesis using readline_shorter [of inp raw rest] by simp
qed

text \<open>
  \<open>_read_header\<close>: the \<open>while True\<close> loop, on the header dictionary built so far and
  the unread input.  The result is the returned header (\<open>None\<close> when the input ends
  before any header line) and the input left unread; \<open>Inl\<close> is an exception that
  leaves the function.
\<close>

function read_header_loop ::
  "header_value dict \<Rightarrow> string \<Rightarrow> py_error + (header_value dict option \<times> string)" where
  "read_header_loop header inp =
     (case readline inp of (raw, rest) \<Rightarrow>
        (let line = strip raw
         in if line = []
            then (if header \<noteq> [] then Inr (Some header, rest) else Inr (None, rest))
            else if CHR '':'' \<in> set line
            then (case split_colon line of (key, v) \<Rightarrow>
                    (case header_entry v of
                       Inl e \<Rightarrow> Inl e
                     | Inr hv \<Rightarrow> read_header_loop (AList.update (strip key) hv header) rest))
            else read_header_loop header rest))"
  by pat_completeness auto
termination
  apply (relation "measure (\<lambda>(header, inp). length inp)")
    apply simp
   apply (auto dest: readline_strip_shorter)
  done

declare read_header_loop.simps [simp del]

definition read_header :: "string \<Rightarrow> py_error + (header_value dict option \<times> string)" where
  "read_header inp = read_header_loop [] inp"

text \<open>
  \<open>_read_content\<close>: \<open>sys.stdin.read(length)\<close> reads up to \<open>length\<close> characters, all
  that is left when \<open>length\<close> is negative; empty content is returned as \<open>None\<close>.
\<close>

definition read_content :: "int \<Rightarrow> string \<Rightarrow> string option \<times> string" where
  "read_content len inp =
     (let n = (if len < 0 then length inp else nat len);
          content = take n inp
      in (if content = [] then None else Some content, drop n inp))"

text \<open>What \<open>json.dumps\<close> returns for the response to request 1 with result \<open>None\<close>.\<close>

definition example_body :: string where
  "example_body = ''{\"jsonrpc\": \"2.0\", \"id\": 1, \"result\": null}''"

subsection \<open>The document store\<close>

text \<open>
  \<open>self.documents\<close>, from URI to content.  The three notification handlers take the
  values found in \<open>params\<close>: each \<open>option\<close> is \<open>None\<close> when the key is absent, and
  the handler then uses its default, the empty string.  \<open>contentChanges\<close> is the list
  of the \<open>"text"\<close> entries of the changes (the empty list when the key is absent).
\<close>

type_synonym documents = "string \<rightharpoonup> string"

definition get_str :: "string option \<Rightarrow> string" where
  "get_str v = (case v of None \<Rightarrow> [] | Some s \<Rightarrow> s)"

definition handle_did_open :: "documents \<Rightarrow> string option \<Rightarrow> string option \<Rightarrow> documents" where
  "handle_did_open docs uri text = docs(get_str uri \<mapsto> get_str text)"

definition handle_did_change ::
  "documents \<Rightarrow> string option \<Rightarrow> string option list \<Rightarrow> documents" where
  "handle_did_change docs uri changes =
     (if changes \<noteq> [] \<and> get_str uri \<in> dom docs
      then docs(get_str uri \<mapsto> get_str (hd changes))
      else docs)"

definition handle_did_close :: "documents \<Rightarrow> string option \<Rightarrow> documents" where
  "handle_did_close docs uri =
     (if get_str uri \<in> dom docs then docs(get_str uri := None) else docs)"

datatype notification =
    DidOpen "string option" "string option"
  | DidChange "string option" "string option list"
  | DidClose "string option"

text \<open>The routing of \<open>_process_message\<close> for the three notifications.\<close>

fun process_notification :: "documents \<Rightarrow> notification \<Rightarrow> documents" where
  "process_notification docs (DidOpen uri text) = handle_did_open docs uri text"
| "process_notification docs (DidChange uri changes) = handle_did_change docs uri changes"
| "process_notification docs (DidClose uri) = handle_did_close docs uri"

text \<open>A sequence of notifications, from the empty store of \<open>__init__\<close>.\<close>

definition process_notifications :: "notification list \<Rightarrow> documents" where
  "process_notifications ns = foldl process_notification Map.empty ns"

text \<open>
  What the claim about the store speaks of: a notification opens, closes or supplies
  a text for a URI.
\<close>

fun opens :: "notification \<Rightarrow> string \<Rightarrow> bool" where
  "opens (DidOpen uri text) u = (get_str uri = u)"
| "opens _ u = False"

fun closes :: "notification \<Rightarrow> string \<Rightarrow> bool" where
  "closes (DidClose uri) u = (get_str uri = u)"
| "closes _ u = False"

fun supplies :: "notification \<Rightarrow> string \<Rightarrow> bool" where
  "supplies (DidOpen uri text) u = (get_str uri = u)"
| "supplies (DidChange uri changes) u = (get_str uri = u \<and> changes \<noteq> [])"
| "supplies (DidClose uri) u = False"

text \<open>
  The full text that a notification supplies, as the claim about the store has it: the
  text of a \<open>didOpen\<close>; for a \<open>didChange\<close>, whose content changes each carry the whole
  document and apply one after the other, the text of the last one.
\<close>

fun supplied_text :: "notification \<Rightarrow> string" where
  "supplied_text (DidOpen uri text) = get_str text"
| "supplied_text (DidChange uri changes) = get_str (last changes)"
| "supplied_text (DidClose uri) = []"

text \<open>The text of the first content change of a \<open>didChange\<close>, for comparison.\<close>

fun first_change_text :: "notification \<Rightarrow> string" where
  "first_change_text (DidOpen uri text) = get_str text"
| "first_change_text (DidChange uri changes) = get_str (hd changes)"
| "first_change_text (DidClose uri) = []"

text \<open>Opened and not subsequently closed.\<close>

definition currently_open :: "notification list \<Rightarrow> string \<Rightarrow> bool" where
  "currently_open ns u =
     (\<exists>i<length ns. opens (ns ! i) u \<and> (\<forall>j<length ns. i < j \<longrightarrow> \<not> closes (ns ! j) u))"

text \<open>
  The most recent notification that supplies a text for the URI, and what \<open>text_of\<close>
  reads from it.
\<close>

definition most_recent :: "(notification \<Rightarrow> string) \<Rightarrow> notification list \<Rightarrow> string \<Rightarrow> string option" where
  "most_recent text_of ns u =
     (let suppliers = filter (\<lambda>n. supplies n u) ns
      in if suppliers = [] then None else Some (text_of (last suppliers)))"

text \<open>The full text supplied by the most recent \<open>didOpen\<close> or \<open>didChange\<close> for the URI.\<close>

definition most_recent_text :: "notification list \<Rightarrow> string \<Rightarrow> string option" where
  "most_recent_text = most_recent supplied_text"

text \<open>The same with the first content change of a \<open>didChange\<close>.\<close>

definition most_recent_first_change :: "notification list \<Rightarrow> string \<Rightarrow> string option" where
  "most_recent_first_change = most_recent first_change_text"

definition example_notifications :: "notification list" where
  "example_notifications =
     [DidOpen (Some ''a'') (Some ''x''),
      DidChange (Some ''a'') [Some ''y'', Some ''z''],
      DidOpen (Some ''b'') (Some ''w''),
      DidClose (Some ''b''),
      DidChange (Some ''b'') [Some ''v'']]"

subsection \<open>Hover\<close>

text \<open>
  The loops of \<open>_get_word_at_position\<close> that find the word boundaries.  An index that
  raises makes the loop raise.
\<close>

definition is_word_char :: "char \<Rightarrow> bool" where
  "is_word_char c = (isalnum c \<or> c = CHR ''_'')"

function find_start :: "string \<Rightarrow> int \<Rightarrow> py_error + int" where
  "find_start line start =
     (if start > 0
      then (case py_index line (start - 1) of
              Inl e \<Rightarrow> Inl e
            | Inr c \<Rightarrow> if is_word_char c then find_start line (start - 1) else Inr start)
      else Inr start)"
  by pat_completeness auto
termination
  by (relation "measure (\<lambda>(line, start). nat start)") auto

declare find_start.simps [simp del]

function find_end :: "string \<Rightarrow> int \<Rightarrow> py_error + int" where
  "find_end line end =
     (if end < int (length line)
      then (case py_index line end of
              Inl e \<Rightarrow> Inl e
            | Inr c \<Rightarrow> if is_word_char c then find_end line (end + 1) else Inr end)
      else Inr end)"
  by pat_completeness auto
termination
  by (relation "measure (\<lambda>(line, end). nat (int (length line) - end))") auto

declare find_end.simps [simp del]

text \<open>
  \<open>position\<close>: the values of the keys \<open>"line"\<close> and \<open>"character"\<close>, \<open>None\<close> when absent
  (the default is then 0).
\<close>

record position =
  pos_line :: "int option"
  pos_character :: "int option"

definition get_int :: "int option \<Rightarrow> int" where
  "get_int v = (case v of None \<Rightarrow> 0 | Some i \<Rightarrow> i)"

definition get_word_at_position ::
  "documents \<Rightarrow> string \<Rightarrow> position \<Rightarrow> py_error + string option" where
  "get_word_at_position docs uri pos =
     (case docs uri of
        None \<Rightarrow> Inr None
      | Some content \<Rightarrow>
          (let lines = split_on newline content;
               line_num = get_int (pos_line pos);
               char_num = get_int (pos_character pos)
           in if line_num \<ge> int (length lines) then Inr None
              else (case py_index lines line_num of
                      Inl e \<Rightarrow> Inl e
                    | Inr line \<Rightarrow>
                        if char_num \<ge> int (length line) then Inr None
                        else (case find_start line char_num of
                                Inl e \<Rightarrow> Inl e
                              | Inr start \<Rightarrow>
                                  (case find_end line char_num of
                                     Inl e \<Rightarrow> Inl e
                                   | Inr end \<Rightarrow>
                                       Inr (if start < end
                                            then Some (py_slice line start end)
                                            else None))))))"

definition hover_map :: "string dict" where
  "hover_map =
     [(''CognitiveCity'', ''**CognitiveCity**: A GitHub organization functioning as a cognitive city with neural transport capabilities.''),
      (''ContextualMemoryPattern'', ''**ContextualMemoryPattern**: Patterns of action and execution traces for progressive encoding.''),
      (''OperationalizedRAGFabric'', ''**OperationalizedRAGFabric**: Links project imperatives to agent-based issue clustering.''),
      (''NeuralTransportNetwork'', ''**NeuralTransportNetwork**: High-bandwidth communication system between cognitive cities.''),
      (''particle_swarm'', ''**Particle Swarm**: LLM-as-particle-swarm-accelerator for distributed cognition optimization.''),
      (''activation_landscape'', ''**Activation Landscape**: Current state of cognitive activation across different specializations.''),
      (''salience_score'', ''**Salience Score**: Measure of importance/relevance of a memory pattern or cognitive element.''),
      (''enterprise_ai'', ''**Enterprise AI**: AI systems designed for enterprise-scale cognitive architectures.''),
      (''neural_transport'', ''**Neural Transport**: Communication protocol for inter-organizational cognitive data transfer.'')]"

definition generate_hover_info :: "string \<Rightarrow> string option" where
  "generate_hover_info word = map_of hover_map word"

record markup_content =
  kind :: string
  markup_value :: string

record hover =
  contents :: markup_content

text \<open>
  \<open>_handle_hover\<close>, on the \<open>"uri"\<close> of the request's \<open>textDocument\<close> and its
  \<open>position\<close>.  \<open>not word\<close> and \<open>not hover_info\<close> hold for \<open>None\<close> and for the empty
  string.  \<open>Inl\<close> is an exception leaving the handler: \<open>_process_message\<close> logs it and
  sends no response.
\<close>

definition handle_hover :: "documents \<Rightarrow> string option \<Rightarrow> position \<Rightarrow> py_error + hover option" where
  "handle_hover docs uri_param pos =
     (let uri = get_str uri_param
      in if uri \<notin> dom docs then Inr None
         else (case get_word_at_position docs uri pos of
                 Inl e \<Rightarrow> Inl e
               | Inr None \<Rightarrow> Inr None
               | Inr (Some word) \<Rightarrow>
                   if word = [] then Inr None
                   else (case generate_hover_info word of
                           None \<Rightarrow> Inr None
                         | Some hover_info \<Rightarrow>
                             if hover_info = [] then Inr None
                             else Inr (Some \<lparr>contents =
                                    \<lparr>kind = ''markdown'', markup_value = hover_info\<rparr>\<rparr>))))"

text \<open>
  The word at a position, as the claim about hover speaks of it: the longest run of
  word characters that surrounds character \<open>c\<close> of the line.
\<close>

definition word_around :: "string \<Rightarrow> nat \<Rightarrow> string" where
  "word_around line c =
     rev (takeWhile is_word_char (rev (take c line))) @ takeWhile is_word_char (drop c line)"

text \<open>A store with one open document, whose content is \<open>abc\<close>.\<close>

definition hover_documents :: documents where
  "hover_documents = [''file:///a.cog'' \<mapsto> ''abc'']"

section \<open>\<open>protocols/mcp/server.py\<close>: the message server\<close>

text \<open>
  The server object holds \<open>clients\<close> (from client id to websocket) and
  \<open>study_sessions\<close>.  A websocket is identified by a number.  The state below adds
  what the server does to its environment: \<open>clock_reads\<close> counts the calls of
  \<open>datetime.now()\<close>, and \<open>sent\<close> lists the calls of \<open>websocket.send\<close> in order, each
  with the dictionary that is serialized and sent.  A \<open>send\<close> that raises
  \<open>ConnectionClosed\<close> is caught by \<open>send_response\<close> and changes nothing else.
\<close>

type_synonym websocket = nat

record mcp_state =
  clients :: "websocket dict"
  study_sessions :: "json dict"
  clock_reads :: nat
  sent :: "(websocket \<times> json) list"

text \<open>
  What \<open>json.loads(message)\<close> does: it raises \<open>JSONDecodeError\<close>, or it raises another
  exception \<open>e\<close> (\<open>Raises\<close>, with \<open>str(e)\<close>: \<open>UnicodeDecodeError\<close> on a binary frame
  that is not UTF-8, \<open>ValueError\<close> on an integer of more than 4300 digits,
  \<open>RecursionError\<close> on deeply nested text), or it returns a value.
\<close>

datatype loads_result = JSONDecodeError | Raises string | Loaded json

text \<open>
  The environment of the server: \<open>now n\<close> is \<open>datetime.now().isoformat()\<close> at the
  \<open>n\<close>-th reading of the clock, \<open>repr v\<close> is \<open>str(v)\<close> for a value that is not a
  string, \<open>loads\<close> is \<open>json.loads\<close>, and \<open>dumps_raises response\<close> is \<open>None\<close> when
  \<open>json.dumps(response)\<close> returns and \<open>str(e)\<close> when it raises \<open>e\<close> (\<open>RecursionError\<close>
  on a deeply nested value).
\<close>

record mcp_env =
  now :: "nat \<Rightarrow> string"
  repr :: "json \<Rightarrow> string"
  loads :: "string \<Rightarrow> loads_result"
  dumps_raises :: "json \<Rightarrow> string option"

abbreviation apostrophe :: char where
  "apostrophe \<equiv> CHR 0x27"

definition timestamp :: "mcp_env \<Rightarrow> mcp_state \<Rightarrow> string \<times> mcp_state" where
  "timestamp env st = (now env (clock_reads st), st\<lparr>clock_reads := Suc (clock_reads st)\<rparr>)"

text \<open>\<open>f"{v}"\<close>: a string as it is, any other value through \<open>str\<close>.\<close>

definition format_value :: "mcp_env \<Rightarrow> json \<Rightarrow> string" where
  "format_value env v = (case v of JStr s \<Rightarrow> s | _ \<Rightarrow> repr env v)"

text \<open>
  A function of the server that can raise returns the state it leaves and the message
  \<open>str(e)\<close> of the exception \<open>e\<close> it raises, \<open>None\<close> when it returns.
\<close>

type_synonym mcp_outcome = "mcp_state \<times> string option"

definition send_response :: "mcp_env \<Rightarrow> mcp_state \<Rightarrow> string \<Rightarrow> json \<Rightarrow> mcp_outcome" where
  "send_response env st client_id response =
     (case map_of (clients st) client_id of
        None \<Rightarrow> (st, None)
      | Some ws \<Rightarrow>
          (case dumps_raises env response of
             Some e \<Rightarrow> (st, Some e)
           | None \<Rightarrow> (st\<lparr>sent := sent st @ [(ws, response)]\<rparr>, None)))"

definition error_response :: "string \<Rightarrow> string \<Rightarrow> json" where
  "error_response error_message ts =
     JObj [(''type'', JStr ''error''),
           (''error'', JStr error_message),
           (''timestamp'', JStr ts)]"

definition send_error :: "mcp_env \<Rightarrow> mcp_state \<Rightarrow> string \<Rightarrow> string \<Rightarrow> mcp_outcome" where
  "send_error env st client_id error_message =
     (case timestamp env st of (ts, st1) \<Rightarrow>
        send_response env st1 client_id (error_response error_message ts))"

definition str_array :: "string list \<Rightarrow> json" where
  "str_array xs = JArr (map JStr xs)"

text \<open>
  \<open>generate_ml_study_content\<close>: \<open>content_map.get(topic, ...)\<close> hashes the topic, which
  raises \<open>TypeError\<close> for a list or a dictionary.
\<close>

definition generate_ml_study_content :: "mcp_env \<Rightarrow> json \<Rightarrow> string + json" where
  "generate_ml_study_content env topic =
     (case topic of
        JArr xs \<Rightarrow> Inl (''unhashable type: '' @ [apostrophe] @ ''list'' @ [apostrophe])
      | JObj d \<Rightarrow> Inl (''unhashable type: '' @ [apostrophe] @ ''dict'' @ [apostrophe])
      | _ \<Rightarrow>
          if topic = JStr ''hello_world'' then
            Inr (JObj [(''concept'', JStr ''Introduction to Machine Learning''),
                       (''description'', JStr ''Basic ML concepts and PyTorch introduction''),
                       (''example_code'', JStr (''model = nn.Linear(10, 1)'' @ [CHR 0x0A] @
                                                ''output = model(torch.randn(1, 10))'')),
                       (''key_points'', str_array [''Tensors'', ''Neural Networks'', ''Forward Pass''])])
          else if topic = JStr ''neural_networks'' then
            Inr (JObj [(''concept'', JStr ''Neural Network Architectures''),
                       (''description'', JStr ''Understanding different neural network types''),
                       (''example_code'', JStr (''class MLP(nn.Module):'' @ [CHR 0x0A] @
                                                ''    def __init__(self):'' @ [CHR 0x0A] @
                                                ''        super().__init__()'')),
                       (''key_points'', str_array [''Layers'', ''Activation Functions'', ''Backpropagation''])])
          else
            Inr (JObj [(''concept'', JStr (''Study topic: '' @ format_value env topic)),
                       (''description'', JStr ''Custom study content''),
                       (''note'', JStr ''Content generation for this topic is in development'')]))"

definition generate_nn_study_content :: "mcp_env \<Rightarrow> json \<Rightarrow> json" where
  "generate_nn_study_content env topic =
     JObj [(''architecture_type'', topic),
           (''description'', JStr (''Neural network architecture study for '' @ format_value env topic)),
           (''implementation_notes'', JStr ''PyTorch-based implementation examples''),
           (''research_papers'', str_array [''Attention Is All You Need'', ''ResNet'', ''BERT''])]"

definition generate_cognitive_architecture_content :: "json \<Rightarrow> json" where
  "generate_cognitive_architecture_content topic =
     JObj [(''cognitive_pattern'', topic),
           (''description'', JStr ''Cognitive architecture design patterns''),
           (''implementation'', JStr ''GitHub Enterprise cognitive ecology''),
           (''neural_transport_channels'', str_array [''cogpilot'', ''cogcities'', ''cosmo-enterprise''])]"

text \<open>
  \<open>handle_study_request\<close>.  The session is stored before the content is generated, so
  it stays stored when the content generation raises (\<open>Inl\<close>, with \<open>str(e)\<close>).
\<close>

definition handle_study_request ::
  "mcp_env \<Rightarrow> mcp_state \<Rightarrow> string \<Rightarrow> json dict \<Rightarrow> mcp_state \<times> (string + json)" where
  "handle_study_request env st client_id data =
     (let study_type = dict_get data ''study_type'' (JStr ''unknown'');
          topic = dict_get data ''topic'' (JStr ''general'');
          session_id = ''session_'' @ str_nat (length (study_sessions st))
      in case timestamp env st of (start_time, st1) \<Rightarrow>
         (let st2 = st1\<lparr>study_sessions :=
                      AList.update session_id
                        (JObj [(''client_id'', JStr client_id),
                               (''study_type'', study_type),
                               (''topic'', topic),
                               (''start_time'', JStr start_time),
                               (''status'', JStr ''active'')])
                        (study_sessions st1)\<rparr>;
              content =
                (if study_type = JStr ''ml_concepts'' then generate_ml_study_content env topic
                 else if study_type = JStr ''nn_architectures''
                 then Inr (generate_nn_study_content env topic)
                 else if study_type = JStr ''cognitive_architecture''
                 then Inr (generate_cognitive_architecture_content topic)
                 else Inr (JObj [(''message'',
                        JStr (''Study type '' @ [apostrophe] @ format_value env study_type @
                              [apostrophe] @ '' not yet implemented''))]))
          in case content of
               Inl e \<Rightarrow> (st2, Inl e)
             | Inr c \<Rightarrow>
                 (case timestamp env st2 of (ts, st3) \<Rightarrow>
                    (st3, Inr (JObj [(''type'', JStr ''study_response''),
                                     (''session_id'', JStr session_id),
                                     (''study_type'', study_type),
                                     (''topic'', topic),
                                     (''content'', c),
                                     (''timestamp'', JStr ts)])))))"

definition analyze_activation_landscape :: "json \<Rightarrow> json" where
  "analyze_activation_landscape parameters =
     JObj [(''current_activations'',
              JObj [(''ml_architecture'', JFloat (Finite (87 / 100))),
                    (''protocol_design'', JFloat (Finite (92 / 100))),
                    (''neural_transport'', JFloat (Finite (74 / 100)))]),
           (''trending_patterns'', str_array [''cognitive_cities'', ''enterprise_ai'']),
           (''optimization_suggestions'',
              str_array [''increase_neural_bandwidth'', ''distribute_processing''])]"

definition analyze_memory_patterns :: "json \<Rightarrow> json" where
  "analyze_memory_patterns parameters =
     JObj [(''active_patterns'', JInt 15),
           (''average_salience'', JFloat (Finite (78 / 100))),
           (''memory_utilization'', JStr ''moderate''),
           (''embedding_dimensions'', JInt 768),
           (''recent_encodings'', str_array [''particle_swarm_optimization'', ''neural_transport''])]"

definition check_neural_transport_status :: "json \<Rightarrow> json" where
  "check_neural_transport_status parameters =
     JObj [(''active_channels'', JInt 3),
           (''total_bandwidth'', JStr ''high''),
           (''channel_health'',
              JObj [(''cogpilot_to_cogcities'', JStr ''excellent''),
                    (''cogpilot_to_enterprise'', JStr ''good''),
                    (''inter_org_sync'', JStr ''optimal'')]),
           (''transport_volume_24h'', JInt 1247)]"

definition handle_cognitive_query ::
  "mcp_env \<Rightarrow> mcp_state \<Rightarrow> string \<Rightarrow> json dict \<Rightarrow> mcp_state \<times> (string + json)" where
  "handle_cognitive_query env st client_id data =
     (let query_type = dict_get data ''query_type'' (JStr ''general'');
          parameters = dict_get data ''parameters'' (JObj []);
          result =
            (if query_type = JStr ''activation_landscape''
             then analyze_activation_landscape parameters
             else if query_type = JStr ''memory_patterns''
             then analyze_memory_patterns parameters
             else if query_type = JStr ''neural_transport_status''
             then check_neural_transport_status parameters
             else JObj [(''error'', JStr (''Unknown query type: '' @ format_value env query_type))])
      in case timestamp env st of (ts, st1) \<Rightarrow>
           (st1, Inr (JObj [(''type'', JStr ''cognitive_query_response''),
                            (''query_type'', query_type),
                            (''result'', result),
                            (''timestamp'', JStr ts)])))"

definition handle_neural_transport ::
  "mcp_env \<Rightarrow> mcp_state \<Rightarrow> string \<Rightarrow> json dict \<Rightarrow> mcp_state \<times> (string + json)" where
  "handle_neural_transport env st client_id data =
     (let source = dict_get data ''source'' (JStr ''unknown'');
          target = dict_get data ''target'' (JStr ''unknown'');
          payload = dict_get data ''payload'' (JObj []);
          transport_result =
            JObj [(''transport_id'', JStr (''transport_'' @ str_nat (length (study_sessions st)))),
                  (''source'', source),
                  (''target'', target),
                  (''status'', JStr ''transmitted''),
                  (''bandwidth_utilization'', JFloat (Finite (85 / 100))),
                  (''latency_ms'', JInt 42),
                  (''payload_size'', JInt (int (length (format_value env payload))))]
      in case timestamp env st of (ts, st1) \<Rightarrow>
           (st1, Inr (JObj [(''type'', JStr ''neural_transport_response''),
                            (''result'', transport_result),
                            (''timestamp'', JStr ts)])))"

definition get_protocol_status :: "mcp_state \<Rightarrow> json" where
  "get_protocol_status st =
     JObj [(''server_status'', JStr ''running''),
           (''connected_clients'', JInt (int (length (clients st)))),
           (''active_sessions'', JInt (int (length (study_sessions st)))),
           (''uptime'', JStr ''simulated_uptime''),
           (''protocol_version'', JStr ''cognitive_architecture_v1.0'')]"

definition get_protocol_capabilities :: json where
  "get_protocol_capabilities =
     JObj [(''supported_message_types'',
              str_array [''study_request'', ''cognitive_architecture_query'',
                         ''neural_transport'', ''protocol_introspection'']),
           (''study_types'',
              str_array [''ml_concepts'', ''nn_architectures'', ''cognitive_architecture'']),
           (''query_types'',
              str_array [''activation_landscape'', ''memory_patterns'', ''neural_transport_status'']),
           (''transport_features'',
              str_array [''high_bandwidth'', ''semantic_routing'', ''context_preservation''])]"

definition get_protocol_performance :: json where
  "get_protocol_performance =
     JObj [(''average_response_time_ms'', JInt 25),
           (''message_throughput'', JStr ''high''),
           (''error_rate'', JFloat (Finite (2 / 100))),
           (''bandwidth_efficiency'', JFloat (Finite (91 / 100))),
           (''client_satisfaction'', JFloat (Finite (96 / 100)))]"

definition handle_protocol_introspection ::
  "mcp_env \<Rightarrow> mcp_state \<Rightarrow> string \<Rightarrow> json dict \<Rightarrow> mcp_state \<times> (string + json)" where
  "handle_protocol_introspection env st client_id data =
     (let introspection_type = dict_get data ''introspection_type'' (JStr ''status'');
          result =
            (if introspection_type = JStr ''status'' then get_protocol_status st
             else if introspection_type = JStr ''capabilities'' then get_protocol_capabilities
             else if introspection_type = JStr ''performance'' then get_protocol_performance
             else JObj [(''error'', JStr (''Unknown introspection type: '' @
                          format_value env introspection_type))])
      in case timestamp env st of (ts, st1) \<Rightarrow>
           (st1, Inr (JObj [(''type'', JStr ''protocol_introspection_response''),
                            (''introspection_type'', introspection_type),
                            (''result'', result),
                            (''timestamp'', JStr ts)])))"

text \<open>
  The end of the \<open>try\<close> block of \<open>process_message\<close> and its last \<open>except\<close> clause:
  the response is sent; an exception of the handler, or of \<open>send_response\<close>, is
  answered by \<open>send_error\<close> with its message.  \<open>send_error\<close> runs in the \<open>except\<close> clause,
  so what it raises leaves \<open>process_message\<close>.
\<close>

definition deliver ::
  "mcp_env \<Rightarrow> string \<Rightarrow> mcp_state \<times> (string + json) \<Rightarrow> mcp_outcome" where
  "deliver env client_id outcome =
     (case outcome of
        (st, Inl e) \<Rightarrow> send_error env st client_id e
      | (st, Inr response) \<Rightarrow>
          (case send_response env st client_id response of
             (st1, Some e) \<Rightarrow> send_error env st1 client_id e
           | (st1, None) \<Rightarrow> (st1, None)))"

text \<open>The name of the type of a value that is not a dictionary, as in the message of
  the \<open>AttributeError\<close> that \<open>data.get\<close> raises on it.\<close>

definition type_name :: "json \<Rightarrow> string" where
  "type_name v =
     (case v of
        JNull \<Rightarrow> ''NoneType''
      | JBool b \<Rightarrow> ''bool''
      | JInt i \<Rightarrow> ''int''
      | JFloat f \<Rightarrow> ''float''
      | JStr s \<Rightarrow> ''str''
      | JArr xs \<Rightarrow> ''list''
      | JObj d \<Rightarrow> ''dict'')"

definition no_attribute_get :: "json \<Rightarrow> string" where
  "no_attribute_get v =
     [apostrophe] @ type_name v @ [apostrophe] @ '' object has no attribute '' @
     [apostrophe] @ ''get'' @ [apostrophe]"

definition process_message :: "mcp_env \<Rightarrow> mcp_state \<Rightarrow> string \<Rightarrow> string \<Rightarrow> mcp_outcome" where
  "process_message env st client_id message =
     (case loads env message of
        JSONDecodeError \<Rightarrow> send_error env st client_id ''Invalid JSON format''
      | Raises e \<Rightarrow> send_error env st client_id e
      | Loaded (JObj data) \<Rightarrow>
          (let message_type = dict_get data ''type'' (JStr ''unknown'')
           in if message_type = JStr ''study_request''
              then deliver env client_id (handle_study_request env st client_id data)
              else if message_type = JStr ''cognitive_architecture_query''
              then deliver env client_id (handle_cognitive_query env st client_id data)
              else if message_type = JStr ''neural_transport''
              then deliver env client_id (handle_neural_transport env st client_id data)
              else if message_type = JStr ''protocol_introspection''
              then deliver env client_id (handle_protocol_introspection env st client_id data)
              else (case timestamp env st of (ts, st1) \<Rightarrow>
                      deliver env client_id
                        (st1, Inr (error_response
                                     (''Unknown message type: '' @ format_value env message_type)
                                     ts))))
      | Loaded other \<Rightarrow> send_error env st client_id (no_attribute_get other))"

text \<open>The four message types that have a handler.\<close>

definition supported_message_types :: "json set" where
  "supported_message_types =
     {JStr ''study_request'', JStr ''cognitive_architecture_query'',
      JStr ''neural_transport'', JStr ''protocol_introspection''}"

text \<open>
  Environments for the examples.  \<open>json.loads\<close> is given by a table that lists the
  messages of the example with what \<open>json.loads\<close> does on each (no other message is
  used); \<open>str\<close> is left open; \<open>json.dumps\<close> returns, as it does on the flat
  dictionaries of strings that the examples send.  The server state has one connected
  client.
\<close>

definition example_env :: "(json \<Rightarrow> string) \<Rightarrow> (string \<times> loads_result) list \<Rightarrow> mcp_env" where
  "example_env str_of table =
     \<lparr>now = (\<lambda>n. ''2024-01-01T00:00:0'' @ str_nat n), repr = str_of,
      loads = (\<lambda>message. dict_get table message JSONDecodeError),
      dumps_raises = (\<lambda>response. None)\<rparr>"

definition example_state :: mcp_state where
  "example_state =
     \<lparr>clients = [(''client_1'', 1)], study_sessions = [], clock_reads = 0, sent = []\<rparr>"

text \<open>
  Messages on which \<open>json.loads\<close> does not raise \<open>JSONDecodeError\<close>: a binary frame
  holding the byte \<open>0xff\<close>, the text \<open>NaN\<close>, and a JSON object with an integer of 4301
  digits; with the message of \<open>UnicodeDecodeError\<close> and of \<open>ValueError\<close>.
\<close>

definition binary_message :: string where
  "binary_message = [CHR 0xFF]"

definition binary_message_error :: string where
  "binary_message_error =
     [apostrophe] @ ''utf-8'' @ [apostrophe] @ '' codec can'' @ [apostrophe] @
     ''t decode byte 0xff in position 0: invalid start byte''"

definition long_integer_message :: string where
  "long_integer_message = ''{\"x\": '' @ replicate 4301 (CHR ''1'') @ ''}''"

definition long_integer_error :: string where
  "long_integer_error =
     ''Exceeds the limit (4300 digits) for integer string conversion: '' @
     ''value has 4301 digits; use sys.set_int_max_str_digits() to increase the limit''"
section \<open>\<open>cognitive_ecology_demo.py\<close>: the particle swarm\<close>

text \<open>
  The swarm computes with Python floats.  Their arithmetic is a parameter: the type
  \<open>'f\<close> of floats with the operations the code uses.  \<open>lit\<close> gives the float of a
  decimal literal, \<open>fsum\<close> is the built-in \<open>sum\<close>, \<open>fabs\<close>, \<open>fmax\<close> and \<open>fmin\<close> are
  \<open>abs\<close>, \<open>max\<close> and \<open>min\<close>, and \<open>gt\<close> is the comparison \<open>>\<close>.  Each is a function: a float
  operation returns the same result for the same operands.
\<close>

record 'f arith =
  lit :: "rat \<Rightarrow> 'f"
  neg_inf :: 'f
  add :: "'f \<Rightarrow> 'f \<Rightarrow> 'f"
  sub :: "'f \<Rightarrow> 'f \<Rightarrow> 'f"
  mul :: "'f \<Rightarrow> 'f \<Rightarrow> 'f"
  fdiv :: "'f \<Rightarrow> 'f \<Rightarrow> 'f"
  fabs :: "'f \<Rightarrow> 'f"
  fmax :: "'f \<Rightarrow> 'f \<Rightarrow> 'f"
  fmin :: "'f \<Rightarrow> 'f \<Rightarrow> 'f"
  gt :: "'f \<Rightarrow> 'f \<Rightarrow> bool"
  fsum :: "'f list \<Rightarrow> 'f"

record 'f ContextualMemoryPattern =
  pattern_id :: string
  priority_profile :: "'f dict"
  execution_trace :: "json dict list"
  embedding_vector :: "'f list option"
  salience_score :: 'f
  organization_context :: string

record 'f particle =
  position :: "'f list"
  velocity :: "'f list"
  best_position :: "'f list option"
  best_score :: 'f

text \<open>The swarm that \<open>particle_swarm_optimize\<close> builds before it iterates.\<close>

definition initial_swarm :: "'f arith \<Rightarrow> 'f particle list" where
  "initial_swarm ar =
     map (\<lambda>i. \<lparr>position = replicate 768 (lit ar (1 / 2)),
                velocity = replicate 768 (lit ar (1 / 10)),
                best_position = None,
                best_score = neg_inf ar\<rparr>) [0..<10]"

text \<open>
  \<open>evaluate_memory_encoding\<close>.  The divisor \<open>1.0 + abs(...)\<close> is never zero, so the
  division does not raise.
\<close>

definition evaluate_memory_encoding ::
  "'f arith \<Rightarrow> 'f list \<Rightarrow> 'f ContextualMemoryPattern \<Rightarrow> 'f" where
  "evaluate_memory_encoding ar embedding pattern =
     (let cosmos_score =
            fsum ar (map (\<lambda>i. mul ar (embedding ! i)
                                  (dict_get (priority_profile pattern) (''dim_'' @ str_nat i)
                                     (lit ar 0)))
                       [0..<length embedding]);
          coherence_score =
            fdiv ar (lit ar 1)
              (add ar (lit ar 1) (fabs ar (sub ar (fsum ar embedding) (salience_score pattern))))
      in mul ar cosmos_score coherence_score)"

text \<open>\<open>max(swarm, key=lambda p: p['best_score'])\<close>: the first particle that no later one
  exceeds; \<open>None\<close> stands for the \<open>ValueError\<close> on an empty swarm.\<close>

definition best_particle :: "'f arith \<Rightarrow> 'f particle list \<Rightarrow> 'f particle option" where
  "best_particle ar swarm =
     (case swarm of
        [] \<Rightarrow> None
      | p # ps \<Rightarrow>
          Some (foldl (\<lambda>best q. if gt ar (best_score q) (best_score best) then q else best) p ps))"

abbreviation not_subscriptable :: py_error where
  "not_subscriptable \<equiv>
     TypeError ([apostrophe] @ ''NoneType'' @ [apostrophe] @ '' object is not subscriptable'')"

text \<open>One round of the loop over the coordinates in \<open>update_particle_dynamics\<close>.\<close>

definition update_coordinate ::
  "'f arith \<Rightarrow> 'f ContextualMemoryPattern \<Rightarrow> 'f list option \<Rightarrow> nat \<Rightarrow> 'f particle \<Rightarrow>
   py_error + 'f particle" where
  "update_coordinate ar pattern global_best i particle =
     (let inertia_weight = lit ar (7 / 10);
          cognitive_weight = lit ar (14 / 10);
          social_weight = lit ar (14 / 10);
          salience_weight = lit ar (3 / 10)
      in if i \<ge> length (velocity particle) then Inl IndexError
         else (case best_position particle of
                 None \<Rightarrow> Inl not_subscriptable
               | Some bp \<Rightarrow>
                   if i \<ge> length bp \<or> i \<ge> length (position particle) then Inl IndexError
                   else (case global_best of
                           None \<Rightarrow> Inl not_subscriptable
                         | Some gb \<Rightarrow>
                             if i \<ge> length gb then Inl IndexError
                             else
                               (let inertia = mul ar inertia_weight (velocity particle ! i);
                                    cognitive = mul ar cognitive_weight
                                                  (sub ar (bp ! i) (position particle ! i));
                                    social = mul ar social_weight
                                               (sub ar (gb ! i) (position particle ! i));
                                    salience = mul ar (mul ar salience_weight (salience_score pattern))
                                                 (lit ar (1 / 100));
                                    v = add ar (add ar (add ar inertia cognitive) social) salience;
                                    x = add ar (position particle ! i) v;
                                    x' = fmax ar (lit ar (- 1)) (fmin ar (lit ar 1) x)
                                in Inr (particle\<lparr>velocity := (velocity particle)[i := v],
                                                 position := (position particle)[i := x']\<rparr>)))))"

text \<open>A \<open>for\<close> loop whose body may raise.\<close>

fun for_each :: "('i \<Rightarrow> 's \<Rightarrow> py_error + 's) \<Rightarrow> 'i list \<Rightarrow> 's \<Rightarrow> py_error + 's" where
  "for_each body [] s = Inr s"
| "for_each body (i # rest) s =
     (case body i s of Inl e \<Rightarrow> Inl e | Inr s' \<Rightarrow> for_each body rest s')"

definition update_particle_dynamics ::
  "'f arith \<Rightarrow> 'f particle \<Rightarrow> 'f particle list \<Rightarrow> 'f ContextualMemoryPattern \<Rightarrow>
   py_error + 'f particle" where
  "update_particle_dynamics ar particle swarm pattern =
     (case best_particle ar swarm of
        None \<Rightarrow> Inl ValueError
      | Some best \<Rightarrow>
          for_each (update_coordinate ar pattern (best_position best))
            [0..<length (velocity particle)] particle)"

text \<open>The body of \<open>for particle in particles\<close>, for the particle at index \<open>k\<close>.\<close>

definition swarm_step ::
  "'f arith \<Rightarrow> 'f ContextualMemoryPattern \<Rightarrow> nat \<Rightarrow> 'f particle list \<Rightarrow>
   py_error + 'f particle list" where
  "swarm_step ar pattern k swarm =
     (let particle = swarm ! k;
          score = evaluate_memory_encoding ar (position particle) pattern;
          particle1 =
            (if gt ar score (best_score particle)
             then particle\<lparr>best_score := score, best_position := Some (position particle)\<rparr>
             else particle);
          swarm1 = swarm[k := particle1]
      in case update_particle_dynamics ar particle1 swarm1 pattern of
           Inl e \<Rightarrow> Inl e
         | Inr particle2 \<Rightarrow> Inr (swarm1[k := particle2]))"

definition particle_swarm_optimize ::
  "'f arith \<Rightarrow> 'f ContextualMemoryPattern \<Rightarrow> py_error + 'f list option" where
  "particle_swarm_optimize ar pattern =
     (let particles = initial_swarm ar
      in case for_each
                (\<lambda>iteration. for_each (swarm_step ar pattern) [0..<length particles])
                [0..<50::nat] particles of
           Inl e \<Rightarrow> Inl e
         | Inr swarm \<Rightarrow>
             (case best_particle ar swarm of
                None \<Rightarrow> Inl ValueError
              | Some best \<Rightarrow> Inr (best_position best)))"

text \<open>
  Two patterns that differ in everything but the priority profile and the salience.
  The second has an \<open>embedding_vector\<close>, as a pattern has once \<open>encode_memory_pattern\<close>
  has stored the result of a first run in it.
\<close>

definition pattern_one :: "rat ContextualMemoryPattern" where
  "pattern_one =
     \<lparr>pattern_id = ''p1'', priority_profile = [(''dim_0'', 1)], execution_trace = [],
      embedding_vector = None, salience_score = 3 / 4, organization_context = ''cogpilot''\<rparr>"

definition pattern_two :: "rat ContextualMemoryPattern" where
  "pattern_two =
     \<lparr>pattern_id = ''p2'', priority_profile = [(''dim_0'', 1)], execution_trace = [[]],
      embedding_vector = Some [0], salience_score = 3 / 4, organization_context = ''cogcities''\<rparr>"

section \<open>Results: executing a build\<close>

lemma build_loop_completes:
  "\<exists>br'. build_loop benv cs br = Inr br' \<and> build_status br' = build_status br"
proof (induction cs arbitrary: br)
  case Nil
  show ?case by simp
next
  case (Cons c cs)
  let ?br1 = "br\<lparr>component_results :=
      AList.update (comp_name c) (build_component c benv) (component_results br)\<rparr>"
  from Cons [of ?br1] obtain br' where
    "build_loop benv cs ?br1 = Inr br'" "build_status br' = build_status ?br1" by blast
  then show ?case by (simp add: Let_def build_component_def)
qed

text \<open>
  Claim C1.  Every component build reports success, every verification reports
  \<open>all_verified\<close>, and so \<open>execute_reproducible_build\<close> ends with \<open>build_status\<close>
  \<open>"success"\<close> for every manifest: the early return with \<open>"failed"\<close> and the
  \<open>"verification_failed"\<close> branch are never taken.  (In this typed model no statement of
  the \<open>try\<close> block can raise, so the \<open>except\<close> branch does not occur.)
\<close>

theorem execute_reproducible_build_success:
  "success (build_component c benv) \<and> all_verified (verify_build_outputs m) \<and>
   build_status (execute_reproducible_build m) = ''success''"
proof -
  obtain br' where "build_loop (setup_build_environment (build_environment m)) (components m)
      \<lparr>res_manifest_id = manifest_id m, build_status = ''in_progress'',
       component_results = [], res_verification = None, build_artifacts = [],
       build_log = [], res_error = None\<rparr> = Inr br'"
    using build_loop_completes by blast
  then show ?thesis
    by (simp add: execute_reproducible_build_def build_component_def
        verify_build_outputs_def Let_def)
qed

section \<open>Results: the build order\<close>

lemma deps_before_append:
  "deps_before g S (xs @ ys) = (deps_before g S xs \<and> deps_before g (S \<union> set xs) ys)"
  by (induction xs arbitrary: S) auto

lemma deps_before_drop_root:
  "deps_before g (insert n S) xs \<Longrightarrow> \<forall>m\<in>set xs. (n, m) \<in> (edges g)\<^sup>* \<Longrightarrow> deps_before g S xs"
proof (induction xs arbitrary: S)
  case Nil
  show ?case by simp
next
  case (Cons m ms)
  from Cons.prems have "deps_before g (insert n (insert m S)) ms"
    by (simp add: insert_commute)
  with Cons.IH [of "insert m S"] Cons.prems(2) have "deps_before g (insert m S) ms" by simp
  with Cons.prems show ?case by auto
qed

lemma edge_dependency: "d \<in> set (dict_get g n []) \<Longrightarrow> (n, d) \<in> edges g"
  by (simp add: edges_def)

lemma visit_post_both:
  "visit_post g {node} s (visit g node s)"
  "visit_post g (set ds) s (visit_all g ds s)"
proof (induction g node s and g ds s rule: visit_visit_all.induct)
  case (1 g node visited result)
  show ?case
  proof (cases "node \<in> visited")
    case True
    then show ?thesis by (simp add: visit.simps visit_post_def)
  next
    case False
    obtain visited' result' where
      va: "visit_all g (dict_get g node []) (insert node visited, result) = (visited', result')"
      by (cases "visit_all g (dict_get g node []) (insert node visited, result)")
    from "1.IH" [OF False] va obtain new where new:
      "result' = result @ new" "visited' = insert node visited \<union> set new" "distinct new"
      "set new \<inter> insert node visited = {}" "set (dict_get g node []) \<subseteq> visited'"
      "\<forall>m\<in>set new. \<exists>r\<in>set (dict_get g node []). (r, m) \<in> (edges g)\<^sup>*"
      "deps_before g (insert node visited) new"
      unfolding visit_post_def by auto
    have res: "visit g node (visited, result) = (visited', result' @ [node])"
      using False va by (simp add: visit.simps)
    have reach: "\<forall>m\<in>set new. (node, m) \<in> (edges g)\<^sup>*"
    proof
      fix m assume "m \<in> set new"
      with new(6) obtain r where "r \<in> set (dict_get g node [])" "(r, m) \<in> (edges g)\<^sup>*" by blast
      then show "(node, m) \<in> (edges g)\<^sup>*"
        using edge_dependency [of r g node] by (meson converse_rtrancl_into_rtrancl)
    qed
    from deps_before_drop_root [OF new(7) reach] have "deps_before g visited new" .
    moreover have "\<forall>d\<in>set (dict_get g node []).
        d \<in> visited \<union> set new \<or> (d, node) \<in> (edges g)\<^sup>*"
      using new(5) new(2) by auto
    ultimately have db: "deps_before g visited (new @ [node])"
      by (simp add: deps_before_append)
    have "snd (visited', result' @ [node]) = snd (visited, result) @ (new @ [node])"
      using new(1) by simp
    moreover have "fst (visited', result' @ [node]) = fst (visited, result) \<union> set (new @ [node])"
      using new(2) by auto
    moreover have "distinct (new @ [node])" using new(3,4) by auto
    moreover have "set (new @ [node]) \<inter> fst (visited, result) = {}"
      using new(4) False by auto
    moreover have "{node} \<subseteq> fst (visited', result' @ [node])" using new(2) by simp
    moreover have "\<forall>m\<in>set (new @ [node]). \<exists>r\<in>{node}. (r, m) \<in> (edges g)\<^sup>*"
      using reach by auto
    moreover have "deps_before g (fst (visited, result)) (new @ [node])" using db by simp
    ultimately show ?thesis unfolding visit_post_def res by blast
  qed
next
  case (2 g s)
  show ?case by (simp add: visit_post_def)
next
  case (3 g dependency rest s)
  let ?s1 = "visit g dependency s"
  let ?s2 = "visit_all g rest ?s1"
  from "3.IH"(1) obtain new1 where n1:
    "snd ?s1 = snd s @ new1" "fst ?s1 = fst s \<union> set new1" "distinct new1"
    "set new1 \<inter> fst s = {}" "dependency \<in> fst ?s1"
    "\<forall>m\<in>set new1. (dependency, m) \<in> (edges g)\<^sup>*"
    "deps_before g (fst s) new1"
    unfolding visit_post_def by auto
  from "3.IH"(2) obtain new2 where n2:
    "snd ?s2 = snd ?s1 @ new2" "fst ?s2 = fst ?s1 \<union> set new2" "distinct new2"
    "set new2 \<inter> fst ?s1 = {}" "set rest \<subseteq> fst ?s2"
    "\<forall>m\<in>set new2. \<exists>r\<in>set rest. (r, m) \<in> (edges g)\<^sup>*"
    "deps_before g (fst ?s1) new2"
    unfolding visit_post_def by auto
  have "snd ?s2 = snd s @ (new1 @ new2)" using n1(1) n2(1) by simp
  moreover have "fst ?s2 = fst s \<union> set (new1 @ new2)" using n1(2) n2(2) by auto
  moreover have "distinct (new1 @ new2)" using n1(2,3) n2(3,4) by auto
  moreover have "set (new1 @ new2) \<inter> fst s = {}" using n1(2,4) n2(4) by auto
  moreover have "set (dependency # rest) \<subseteq> fst ?s2" using n1(5) n2(2,5) by auto
  moreover have "\<forall>m\<in>set (new1 @ new2). \<exists>r\<in>set (dependency # rest). (r, m) \<in> (edges g)\<^sup>*"
    using n1(6) n2(6) by auto
  moreover have "deps_before g (fst s) (new1 @ new2)"
    using n1(7) n2(7) n1(2) by (simp add: deps_before_append)
  ultimately show ?case unfolding visit_post_def by (simp only: visit_all.simps) blast
qed


lemma closed_reachable:
  assumes "closed_graph g" "(r, m) \<in> (edges g)\<^sup>*" "r \<in> fst ` set g"
  shows "m \<in> fst ` set g"
  using assms(2,3)
proof (induction rule: rtrancl_induct)
  case base
  then show ?case .
next
  case (step a b)
  then have "a \<in> fst ` set g" by simp
  from step(2) have b: "b \<in> set (dict_get g a [])" by (simp add: edges_def)
  then obtain ds where ds: "map_of g a = Some ds" "b \<in> set ds"
    by (cases "map_of g a") (auto simp: dict_get_def)
  then have "(a, ds) \<in> set g" by (simp add: map_of_SomeD)
  with assms(1) ds(2) show ?case unfolding closed_graph_def by blast
qed

lemma deps_before_acyclic:
  assumes "deps_before g S xs" "acyclic (edges g)" "i < length xs"
    "d \<in> set (dict_get g (xs ! i) [])"
  shows "d \<in> S \<union> set (take i xs)"
proof -
  from assms(3) have "xs = take i xs @ (xs ! i) # drop (Suc i) xs"
    by (simp add: id_take_nth_drop)
  with assms(1) have "deps_before g S (take i xs @ (xs ! i) # drop (Suc i) xs)" by simp
  then have "\<forall>d\<in>set (dict_get g (xs ! i) []).
      d \<in> S \<union> set (take i xs) \<or> (d, xs ! i) \<in> (edges g)\<^sup>*"
    by (simp add: deps_before_append)
  with assms(4) have "d \<in> S \<union> set (take i xs) \<or> (d, xs ! i) \<in> (edges g)\<^sup>*" by blast
  moreover have "(d, xs ! i) \<notin> (edges g)\<^sup>*"
  proof
    assume "(d, xs ! i) \<in> (edges g)\<^sup>*"
    moreover from assms(4) have "(xs ! i, d) \<in> edges g" by (rule edge_dependency)
    ultimately have "(xs ! i, xs ! i) \<in> (edges g)\<^sup>+" by (rule rtrancl_into_trancl2 [rotated])
    with assms(2) show False by (simp add: acyclic_def)
  qed
  ultimately show ?thesis by blast
qed

lemma closed_up_to_key: "key \<in> fst ` set g \<Longrightarrow> closed_up_to g key \<Longrightarrow> closed_graph g"
  unfolding closed_up_to_def closed_graph_def by (simp add: insert_absorb)

lemma closed_update_empty:
  "key \<notin> fst ` set g \<Longrightarrow> closed_up_to g key \<Longrightarrow> closed_graph (AList.update key [] g)"
proof -
  assume a: "key \<notin> fst ` set g" "closed_up_to g key"
  from a(1) have "map_of g key = None" by (simp add: map_of_eq_None_iff)
  then have "AList.update key [] g = g @ [(key, [])]"
    by (induction g) (auto split: if_splits)
  with a(2) show ?thesis by (auto simp: closed_up_to_def closed_graph_def)
qed

lemma closed_append_dependency:
  assumes "closed_graph g"
  shows "closed_up_to (append_dependency key dep g) dep"
proof -
  have "x \<in> insert dep (fst ` set g)"
    if "(n, ds) \<in> set (append_dependency key dep g)" "x \<in> set ds" for n ds x
  proof -
    from that(1) obtain ds0 where "(n, ds0) \<in> set g" "ds = ds0 \<or> ds = ds0 @ [dep]"
      by (auto simp: append_dependency_def split: if_splits)
    with assms that(2) show ?thesis unfolding closed_graph_def by fastforce
  qed
  then show ?thesis unfolding closed_up_to_def keys_append_dependency by blast
qed

lemma add_dependencies_closed:
  "closed_up_to graph key \<Longrightarrow>
     closed_graph (add_dependencies registry key graph) \<and>
     insert key (fst ` set graph) \<subseteq> fst ` set (add_dependencies registry key graph)"
  "closed_graph graph \<Longrightarrow>
     closed_graph (add_inputs registry key ds graph) \<and>
     fst ` set graph \<subseteq> fst ` set (add_inputs registry key ds graph)"
proof (induction registry key graph and registry key ds graph
    rule: add_dependencies_add_inputs.induct)
  case (1 registry component_key graph)
  show ?case
  proof (cases "component_key \<in> fst ` set graph")
    case True
    with "1.prems" show ?thesis
      by (simp add: add_dependencies.simps closed_up_to_key)
  next
    case False
    let ?g1 = "AList.update component_key [] graph"
    from False "1.prems" have c1: "closed_graph ?g1" by (rule closed_update_empty)
    have k1: "fst ` set ?g1 = insert component_key (fst ` set graph)" by (rule keys_update)
    show ?thesis
    proof (cases "map_of registry component_key")
      case None
      with False c1 k1 show ?thesis by (simp add: add_dependencies.simps del: image_insert)
    next
      case (Some component)
      from "1.IH" [OF False refl Some c1] k1 False Some show ?thesis
        by (auto simp: add_dependencies.simps simp del: image_insert)
    qed
  qed
next
  case (2 registry component_key graph)
  then show ?case by simp
next
  case (3 registry component_key dep rest graph)
  let ?g' = "append_dependency component_key dep graph"
  from "3.prems" have "closed_up_to ?g' dep" by (rule closed_append_dependency)
  from "3.IH"(1) [OF this] have
    c: "closed_graph (add_dependencies registry dep ?g')"
    and k: "fst ` set graph \<subseteq> fst ` set (add_dependencies registry dep ?g')" by auto
  from "3.IH"(2) [OF c] k show ?case by auto
qed

lemma resolve_dependency_graph_closed:
  "closed_graph (resolve_dependency_graph registry target_components)"
proof -
  have "closed_graph g \<Longrightarrow>
      closed_graph (foldl (\<lambda>graph target. add_dependencies registry target graph) g ts)" for g ts
  proof (induction ts arbitrary: g)
    case Nil
    then show ?case by simp
  next
    case (Cons t ts)
    from Cons.prems have "closed_up_to g t" by (auto simp: closed_graph_def closed_up_to_def)
    then have "closed_graph (add_dependencies registry t g)"
      using add_dependencies_closed(1) by blast
    with Cons.IH show ?case by simp
  qed
  moreover have "closed_graph []" by (simp add: closed_graph_def)
  ultimately show ?thesis unfolding resolve_dependency_graph_def by blast
qed

lemma topological_sort_post:
  "visit_post g (fst ` set g) ({}, []) ({} \<union> set (topological_sort g), topological_sort g)"
proof -
  from visit_post_both(2) [of g "map fst g" "({}, [])"]
  obtain new where new: "snd (visit_all g (map fst g) ({}, [])) = new"
    "fst (visit_all g (map fst g) ({}, [])) = set new"
    unfolding visit_post_def by auto
  then have "visit_all g (map fst g) ({}, []) = ({} \<union> set (topological_sort g), topological_sort g)"
    by (simp add: topological_sort_def prod_eq_iff)
  with visit_post_both(2) [of g "map fst g" "({}, [])"] show ?thesis by simp
qed


lemma example_graph_sorted: "topological_sort example_graph = [''core'', ''lib'', ''app'']"
  by (simp add: topological_sort_def visit.simps dict_get_def example_graph_def)

lemma cyclic_graph_sorted: "topological_sort cyclic_graph = [''b'', ''a'']"
  by (simp add: topological_sort_def visit.simps dict_get_def cyclic_graph_def)

lemma example_graph_edges:
  "edges example_graph = {(''app'', ''lib''), (''app'', ''core''), (''lib'', ''core'')}"
  by (auto simp: edges_def example_graph_def dict_get_def split: if_splits)

lemma example_graph_acyclic: "acyclic (edges example_graph)"
proof (rule acyclicI_order
    [where f = "\<lambda>x. if x = ''app'' then 2 :: nat else if x = ''lib'' then 1 else 0"])
  fix a b assume "(a, b) \<in> edges example_graph"
  then show "(if b = ''app'' then 2 :: nat else if b = ''lib'' then 1 else 0)
      < (if a = ''app'' then 2 else if a = ''lib'' then 1 else 0)"
    unfolding example_graph_edges by auto
qed

lemma example_registry_resolved:
  "resolve_dependency_graph example_registry [''app''] = example_graph"
  by (simp add: resolve_dependency_graph_def add_dependencies.simps example_registry_def
      component_with_inputs_def append_dependency_def example_graph_def)


section \<open>Results: framing on stdio\<close>

lemma readline_append:
  "newline \<notin> set xs \<Longrightarrow> readline (xs @ newline # ys) = (xs @ [newline], ys)"
  by (induction xs) auto

lemma of_char_digit_char: "d < 10 \<Longrightarrow> (of_char (digit_char d) :: nat) = 0x30 + d"
proof -
  assume "d < 10"
  then consider "d = 0" | "d = 1" | "d = 2" | "d = 3" | "d = 4" | "d = 5" | "d = 6" | "d = 7"
    | "d = 8" | "d = 9" by atomize_elim arith
  then show ?thesis by cases (simp_all add: digit_char_def)
qed

lemma digit_char_props:
  assumes "d < 10"
  shows "is_ascii_digit (digit_char d)" "digit_val (digit_char d) = d"
    "\<not> isspace (digit_char d)" "isdigit (digit_char d)"
  using assms
  by (auto simp: is_ascii_digit_def digit_val_def isspace_def isdigit_def
      Let_def of_char_digit_char)

lemma digit_char_neq:
  assumes "d < 10"
  shows "digit_char d \<noteq> newline" "digit_char d \<noteq> CHR '':''"
proof -
  have "(of_char (digit_char d) :: nat) \<noteq> of_char newline"
    "(of_char (digit_char d) :: nat) \<noteq> of_char CHR '':''"
    using assms by (simp_all add: of_char_digit_char)
  then show "digit_char d \<noteq> newline" "digit_char d \<noteq> CHR '':''" by auto
qed

lemma str_nat_nonempty: "str_nat n \<noteq> []"
  by (subst str_nat.simps) simp

lemma str_nat_digits: "c \<in> set (str_nat n) \<Longrightarrow> \<exists>d<10. c = digit_char d"
proof (induction n arbitrary: c rule: str_nat.induct)
  case (1 n)
  show ?case
  proof (cases "n < 10")
    case True
    with "1.prems" show ?thesis by (subst (asm) str_nat.simps) auto
  next
    case False
    with "1.prems" have "c \<in> set (str_nat (n div 10)) \<or> c = digit_char (n mod 10)"
      by (subst (asm) str_nat.simps) auto
    then show ?thesis
    proof
      assume "c \<in> set (str_nat (n div 10))"
      with "1.IH" False show ?thesis by simp
    next
      assume "c = digit_char (n mod 10)"
      then show ?thesis by (intro exI [of _ "n mod 10"]) simp
    qed
  qed
qed

lemma str_nat_value: "foldl (\<lambda>acc c. 10 * acc + digit_val c) 0 (str_nat n) = n"
proof (induction n rule: str_nat.induct)
  case (1 n)
  show ?case
  proof (cases "n < 10")
    case True
    then show ?thesis by (subst str_nat.simps) (simp add: digit_char_props)
  next
    case False
    with "1.IH" show ?thesis
      by (subst str_nat.simps) (simp add: digit_char_props)
  qed
qed

lemma py_int_str_nat: "py_int (str_nat n) = Inr (int n)"
proof -
  have "list_all is_ascii_digit (str_nat n)"
    unfolding list_all_iff using str_nat_digits digit_char_props(1) by blast
  then show ?thesis by (simp add: py_int_def str_nat_nonempty str_nat_value)
qed

lemma str_isdigit_str_nat: "str_isdigit (str_nat n)"
  unfolding str_isdigit_def list_all_iff
  using str_nat_digits digit_char_props(4) str_nat_nonempty by blast

lemma str_nat_no_space: "c \<in> set (str_nat n) \<Longrightarrow> \<not> isspace c"
  using str_nat_digits digit_char_props(3) by blast

lemma strip_no_space: "\<forall>c\<in>set s. \<not> isspace c \<Longrightarrow> strip s = s"
proof -
  assume a: "\<forall>c\<in>set s. \<not> isspace c"
  then have "dropWhile isspace s = s" by (cases s) auto
  moreover from a have "dropWhile isspace (rev s) = rev s" by (cases "rev s") auto
  ultimately show ?thesis by (simp add: strip_def)
qed

lemma strip_str_nat: "strip (str_nat n) = str_nat n"
  using str_nat_no_space by (intro strip_no_space) blast


lemma str_nat_no_newline: "newline \<notin> set (str_nat n)"
proof
  assume "newline \<in> set (str_nat n)"
  then obtain d where "d < 10" "newline = digit_char d" using str_nat_digits by blast
  with digit_char_neq(1) [of d] show False by simp
qed

lemma strip_trailing_crlf:
  assumes "s \<noteq> []" "\<not> isspace (hd s)" "\<not> isspace (last s)"
  shows "strip (s @ [carriage_return, newline]) = s"
proof -
  have sp: "isspace carriage_return" "isspace newline"
    by (simp_all add: isspace_def)
  from assms obtain d ds where ds: "rev s = d # ds" "\<not> isspace d"
    by (cases "rev s") (auto simp: last_rev [symmetric] simp del: last_rev)
  obtain c cs where cs: "s = c # cs" "\<not> isspace c"
    using assms by (cases s) auto
  have "dropWhile isspace (s @ [carriage_return, newline]) = s @ [carriage_return, newline]"
    using cs by simp
  moreover have "dropWhile isspace (rev (s @ [carriage_return, newline])) = rev s"
    using ds sp by simp
  ultimately show ?thesis by (simp add: strip_def)
qed

lemma strip_leading_space:
  assumes "\<forall>c\<in>set s. \<not> isspace c"
  shows "strip (CHR '' '' # s) = s"
proof -
  have "isspace CHR '' ''" by (simp add: isspace_def)
  moreover have "dropWhile isspace s = s" using assms by (cases s) auto
  ultimately have dw: "dropWhile isspace (CHR '' '' # s) = s" by simp
  have dr: "dropWhile isspace (rev s) = rev s" using assms by (cases "rev s") auto
  show ?thesis unfolding strip_def dw dr by simp
qed

lemma header_entry_value: "header_entry (CHR '' '' # str_nat n) = Inr (HInt (int n))"
proof -
  have "strip (CHR '' '' # str_nat n) = str_nat n"
    using str_nat_no_space by (intro strip_leading_space) blast
  then show ?thesis
    by (simp add: header_entry_def str_isdigit_str_nat py_int_str_nat)
qed

lemma read_header_loop_entry:
  assumes "readline inp = (raw, rest)" "strip raw = line" "line \<noteq> []"
    "CHR '':'' \<in> set line" "split_colon line = (key, v)" "header_entry v = Inr hv"
  shows "read_header_loop header inp =
         read_header_loop (AList.update (strip key) hv header) rest"
  by (subst read_header_loop.simps) (simp add: assms)

lemma read_header_loop_blank:
  assumes "readline inp = (raw, rest)" "strip raw = []" "header \<noteq> []"
  shows "read_header_loop header inp = Inr (Some header, rest)"
  by (subst read_header_loop.simps) (simp add: assms)

lemma read_header_frame:
  "read_header (''Content-Length: '' @ str_nat n @
      [carriage_return, newline, carriage_return, newline] @ content) =
   Inr (Some [(''Content-Length'', HInt (int n))], content)"
proof -
  define line where "line = ''Content-Length: '' @ str_nat n"
  let ?hdr = "[(''Content-Length'', HInt (int n))]"
  have inp: "''Content-Length: '' @ str_nat n @
      [carriage_return, newline, carriage_return, newline] @ content =
      (line @ [carriage_return]) @ newline # ([carriage_return] @ newline # content)"
    by (simp add: line_def)
  have "newline \<notin> set (line @ [carriage_return])"
    using str_nat_no_newline [of n] by (simp add: line_def)
  then have r1: "readline ((line @ [carriage_return]) @ newline # ([carriage_return] @ newline # content))
      = ((line @ [carriage_return]) @ [newline], [carriage_return] @ newline # content)"
    by (rule readline_append)
  have last_line: "last line = last (str_nat n)" "hd line = CHR ''C''" "line \<noteq> []"
    using str_nat_nonempty [of n] by (simp_all add: line_def)
  have "last (str_nat n) \<in> set (str_nat n)" using str_nat_nonempty by simp
  then have "\<not> isspace (last line)" using str_nat_no_space last_line by simp
  moreover have "\<not> isspace (hd line)" using last_line by (simp add: isspace_def)
  ultimately have "strip (line @ [carriage_return, newline]) = line"
    using last_line(3) by (intro strip_trailing_crlf)
  then have s1: "strip ((line @ [carriage_return]) @ [newline]) = line" by simp
  have colon: "CHR '':'' \<in> set line" by (simp add: line_def)
  have sc: "split_colon line = (''Content-Length'', CHR '' '' # str_nat n)"
    by (simp add: line_def split_colon_def)
  have key: "strip ''Content-Length'' = ''Content-Length''"
    by (simp add: strip_def isspace_def)
  have "read_header_loop [] ((line @ [carriage_return]) @ newline # ([carriage_return] @ newline # content))
      = read_header_loop (AList.update (strip ''Content-Length'') (HInt (int n)) [])
          ([carriage_return] @ newline # content)"
    using r1 s1 last_line(3) colon sc header_entry_value by (rule read_header_loop_entry)
  also have "\<dots> = read_header_loop ?hdr ([carriage_return] @ newline # content)"
    by (simp add: key)
  also have "\<dots> = Inr (Some ?hdr, content)"
  proof (rule read_header_loop_blank)
    show "readline ([carriage_return] @ newline # content) = ([carriage_return] @ [newline], content)"
      by (rule readline_append) simp
    show "strip ([carriage_return] @ [newline]) = []" by (simp add: strip_def isspace_def)
    show "?hdr \<noteq> []" by simp
  qed
  finally show ?thesis by (simp only: read_header_def inp)
qed

lemma read_content_exact:
  "content \<noteq> [] \<Longrightarrow> read_content (int (length content)) content = (Some content, [])"
  by (simp add: read_content_def)

text \<open>
  Claim C3.  What \<open>_send_response\<close> writes is the header line \<open>Content-Length: N\<close>, a
  blank line and the serialized body, where \<open>N\<close> is the length of the body.  Read back,
  \<open>_read_header\<close> returns the header whose only entry is \<open>Content-Length\<close> with the
  integer \<open>N\<close> and leaves exactly the body unread, and \<open>_read_content\<close> with that
  length returns the body and leaves nothing.  \<open>json.dumps\<close> is any function that
  returns a non-empty string for the response, as it does for every dictionary.
\<close>

theorem framing_round_trip:
  assumes "content = dumps (JObj [(''jsonrpc'', JStr ''2.0''), (''id'', msg_id), (''result'', result)])"
    and "content \<noteq> []"
  shows "lsp_send_response dumps msg_id result =
           ''Content-Length: '' @ str_nat (length content) @
           [carriage_return, newline, carriage_return, newline] @ content \<and>
         read_header (lsp_send_response dumps msg_id result) =
           Inr (Some [(''Content-Length'', HInt (int (length content)))], content) \<and>
         read_content (int (length content)) content = (Some content, [])"
  using assms read_header_frame [of "length content" content] read_content_exact [of content]
  by (simp add: lsp_send_response_def Let_def)

theorem framing_round_trip_witness:
  "read_header (lsp_send_response (\<lambda>response. example_body) (JInt 1) JNull) =
     Inr (Some [(''Content-Length'', HInt 43)], example_body) \<and>
   read_content 43 example_body = (Some example_body, [])"
proof -
  have len: "length example_body = 43" by (simp add: example_body_def)
  then have ne: "example_body \<noteq> []" by auto
  have "read_header (lsp_send_response (\<lambda>response. example_body) (JInt 1) JNull) =
          Inr (Some [(''Content-Length'', HInt (int (length example_body)))], example_body) \<and>
        read_content (int (length example_body)) example_body = (Some example_body, [])"
    by (rule framing_round_trip [of example_body "\<lambda>response. example_body" "JInt 1" JNull,
          THEN conjunct2]) (simp_all add: ne)
  then show ?thesis by (simp add: len)
qed

section \<open>Results: the message server\<close>

lemma send_response_server_state:
  "clients (fst (send_response env st client_id response)) = clients st \<and>
   study_sessions (fst (send_response env st client_id response)) = study_sessions st"
  by (simp add: send_response_def split: option.splits)

lemma send_error_server_state:
  "clients (fst (send_error env st client_id msg)) = clients st \<and>
   study_sessions (fst (send_error env st client_id msg)) = study_sessions st"
  by (simp add: send_error_def timestamp_def send_response_server_state)

lemma send_error_sent:
  assumes "map_of (clients st) client_id = Some ws"
    and "dumps_raises env (error_response msg (now env (clock_reads st))) = None"
  shows "send_error env st client_id msg =
     (st\<lparr>clock_reads := Suc (clock_reads st),
         sent := sent st @ [(ws, error_response msg (now env (clock_reads st)))]\<rparr>, None)"
  using assms by (simp add: send_error_def timestamp_def send_response_def)

lemma example_now:
  "now (example_env str_of table) (clock_reads example_state) = ''2024-01-01T00:00:00''"
  by (simp add: example_env_def example_state_def str_nat.simps digit_char_def)

lemma example_repr: "repr (example_env str_of table) = str_of"
  by (simp add: example_env_def)

lemma example_loads:
  "loads (example_env str_of [(message, outcome)]) message = outcome"
  by (simp add: example_env_def dict_get_def)

lemma example_dumps: "dumps_raises (example_env str_of table) response = None"
  by (simp add: example_env_def)

lemma example_client: "map_of (clients example_state) ''client_1'' = Some 1"
  by (simp add: example_state_def)

lemma example_sent: "sent example_state = []"
  by (simp add: example_state_def)

text \<open>
  An exception of \<open>json.loads\<close> other than \<open>JSONDecodeError\<close> is answered with its own
  message.
\<close>

lemma process_message_loads_raises:
  assumes "loads env message = Raises e"
  shows "process_message env st client_id message = send_error env st client_id e"
  using assms by (simp add: process_message_def)

text \<open>A value that is not a dictionary is answered with the \<open>AttributeError\<close> of \<open>data.get\<close>.\<close>

lemma process_message_not_a_dict:
  assumes "loads env message = Loaded v" and "\<forall>data. v \<noteq> JObj data"
  shows "process_message env st client_id message =
           send_error env st client_id (no_attribute_get v)"
  using assms by (cases v) (simp_all add: process_message_def)

text \<open>
  Claim C7.  When \<open>json.loads\<close> raises \<open>JSONDecodeError\<close> on the message,
  \<open>process_message\<close> leaves \<open>clients\<close> and \<open>study_sessions\<close> as they were and, the
  client being connected (its id is in \<open>clients\<close>, as it is throughout \<open>handle_client\<close>)
  and \<open>json.dumps\<close> returning on the error response, makes exactly one \<open>send\<close> to the
  client's websocket: the response of type \<open>error\<close> with the error string
  \<open>Invalid JSON format\<close>; it raises nothing.
\<close>

theorem process_message_invalid_json:
  assumes "loads env message = JSONDecodeError"
  shows "clients (fst (process_message env st client_id message)) = clients st \<and>
         study_sessions (fst (process_message env st client_id message)) = study_sessions st \<and>
         (map_of (clients st) client_id = Some ws \<and>
          dumps_raises env
            (error_response ''Invalid JSON format'' (now env (clock_reads st))) = None \<longrightarrow>
            sent (fst (process_message env st client_id message)) =
              sent st @ [(ws, JObj [(''type'', JStr ''error''),
                                    (''error'', JStr ''Invalid JSON format''),
                                    (''timestamp'', JStr (now env (clock_reads st)))])] \<and>
            snd (process_message env st client_id message) = None)"
proof -
  from assms have p: "process_message env st client_id message =
      send_error env st client_id ''Invalid JSON format''"
    by (simp add: process_message_def)
  show ?thesis
    unfolding p by (simp add: send_error_server_state send_error_sent) (simp add: error_response_def)
qed

theorem process_message_invalid_json_witness:
  "\<forall>str_of.
     loads (example_env str_of [(''{'', JSONDecodeError)]) ''{'' = JSONDecodeError \<and>
     clients (fst (process_message (example_env str_of [(''{'', JSONDecodeError)])
                     example_state ''client_1'' ''{'')) = clients example_state \<and>
     study_sessions (fst (process_message (example_env str_of [(''{'', JSONDecodeError)])
                            example_state ''client_1'' ''{'')) = study_sessions example_state \<and>
     sent (fst (process_message (example_env str_of [(''{'', JSONDecodeError)])
                  example_state ''client_1'' ''{'')) =
       [(1, JObj [(''type'', JStr ''error''), (''error'', JStr ''Invalid JSON format''),
                  (''timestamp'', JStr ''2024-01-01T00:00:00'')])] \<and>
     snd (process_message (example_env str_of [(''{'', JSONDecodeError)])
            example_state ''client_1'' ''{'') = None"
proof
  fix str_of
  let ?env = "example_env str_of [(''{'', JSONDecodeError)]"
  have l: "loads ?env ''{'' = JSONDecodeError" by (rule example_loads)
  from process_message_invalid_json [OF l, of example_state "''client_1''" 1]
  show "loads ?env ''{'' = JSONDecodeError \<and>
     clients (fst (process_message ?env example_state ''client_1'' ''{'')) =
       clients example_state \<and>
     study_sessions (fst (process_message ?env example_state ''client_1'' ''{'')) =
       study_sessions example_state \<and>
     sent (fst (process_message ?env example_state ''client_1'' ''{'')) =
       [(1, JObj [(''type'', JStr ''error''), (''error'', JStr ''Invalid JSON format''),
                  (''timestamp'', JStr ''2024-01-01T00:00:00'')])] \<and>
     snd (process_message ?env example_state ''client_1'' ''{'') = None"
    using l by (simp add: example_client example_dumps example_now example_sent)
qed

text \<open>
  Not every message that is not valid JSON makes \<open>json.loads\<close> raise \<open>JSONDecodeError\<close>.
  On a binary frame holding the byte \<open>0xff\<close> it raises \<open>UnicodeDecodeError\<close>, and the
  client is sent the message of that exception.  The text \<open>NaN\<close>, which the JSON
  grammar does not have, it parses to a float, and the client is sent the message of
  the \<open>AttributeError\<close> that \<open>data.get\<close> raises.  Neither answer is
  \<open>Invalid JSON format\<close>.
\<close>

theorem process_message_not_json_counterexample:
  "\<forall>str_of.
     sent (fst (process_message
                  (example_env str_of [(binary_message, Raises binary_message_error)])
                  example_state ''client_1'' binary_message)) =
       [(1, JObj [(''type'', JStr ''error''),
                  (''error'', JStr ([apostrophe] @ ''utf-8'' @ [apostrophe] @ '' codec can'' @
                     [apostrophe] @ ''t decode byte 0xff in position 0: invalid start byte'')),
                  (''timestamp'', JStr ''2024-01-01T00:00:00'')])] \<and>
     sent (fst (process_message
                  (example_env str_of [(''NaN'', Loaded (JFloat NaN))])
                  example_state ''client_1'' ''NaN'')) =
       [(1, JObj [(''type'', JStr ''error''),
                  (''error'', JStr ([apostrophe] @ ''float'' @ [apostrophe] @
                     '' object has no attribute '' @ [apostrophe] @ ''get'' @ [apostrophe])),
                  (''timestamp'', JStr ''2024-01-01T00:00:00'')])]"
proof
  fix str_of
  let ?env1 = "example_env str_of [(binary_message, Raises binary_message_error)]"
  let ?env2 = "example_env str_of [(''NaN'', Loaded (JFloat NaN))]"
  have 1: "process_message ?env1 example_state ''client_1'' binary_message =
      send_error ?env1 example_state ''client_1'' binary_message_error"
    by (rule process_message_loads_raises) (rule example_loads)
  have 2: "process_message ?env2 example_state ''client_1'' ''NaN'' =
      send_error ?env2 example_state ''client_1'' (no_attribute_get (JFloat NaN))"
    by (rule process_message_not_a_dict) (simp_all add: example_loads)
  show "sent (fst (process_message ?env1 example_state ''client_1'' binary_message)) =
       [(1, JObj [(''type'', JStr ''error''),
                  (''error'', JStr ([apostrophe] @ ''utf-8'' @ [apostrophe] @ '' codec can'' @
                     [apostrophe] @ ''t decode byte 0xff in position 0: invalid start byte'')),
                  (''timestamp'', JStr ''2024-01-01T00:00:00'')])] \<and>
     sent (fst (process_message ?env2 example_state ''client_1'' ''NaN'')) =
       [(1, JObj [(''type'', JStr ''error''),
                  (''error'', JStr ([apostrophe] @ ''float'' @ [apostrophe] @
                     '' object has no attribute '' @ [apostrophe] @ ''get'' @ [apostrophe])),
                  (''timestamp'', JStr ''2024-01-01T00:00:00'')])]"
    unfolding 1 2
    by (simp add: send_error_sent example_client example_dumps example_now example_sent
        error_response_def binary_message_error_def no_attribute_get_def type_name_def)
qed

text \<open>
  Claim C4.  For a message that \<open>json.loads\<close> parses to a dictionary, let
  \<open>message_type\<close> be \<open>data.get("type", "unknown")\<close>.  If it is none of the four
  supported types, the connected client is sent one response of type \<open>error\<close> whose
  error string is \<open>Unknown message type: \<close> followed by the formatted type
  (\<open>json.dumps\<close> returning on that response); when the field is absent the type is none
  of the four and is formatted as \<open>unknown\<close>.  If it is one of the four supported
  types, the message goes to the handler of that type, whose response (or whose
  exception message, as an error) is sent.
\<close>

theorem process_message_dispatch:
  assumes "loads env message = Loaded (JObj data)"
    and "message_type = dict_get data ''type'' (JStr ''unknown'')"
  shows
    "(message_type \<notin> supported_message_types \<and> map_of (clients st) client_id = Some ws \<and>
      dumps_raises env
        (error_response (''Unknown message type: '' @ format_value env message_type)
           (now env (clock_reads st))) = None \<longrightarrow>
        sent (fst (process_message env st client_id message)) =
          sent st @ [(ws, JObj [(''type'', JStr ''error''),
                                (''error'', JStr (''Unknown message type: '' @
                                                  format_value env message_type)),
                                (''timestamp'', JStr (now env (clock_reads st)))])] \<and>
        snd (process_message env st client_id message) = None) \<and>
     (map_of data ''type'' = None \<longrightarrow>
        message_type \<notin> supported_message_types \<and> format_value env message_type = ''unknown'') \<and>
     (message_type = JStr ''study_request'' \<longrightarrow>
        process_message env st client_id message =
          deliver env client_id (handle_study_request env st client_id data)) \<and>
     (message_type = JStr ''cognitive_architecture_query'' \<longrightarrow>
        process_message env st client_id message =
          deliver env client_id (handle_cognitive_query env st client_id data)) \<and>
     (message_type = JStr ''neural_transport'' \<longrightarrow>
        process_message env st client_id message =
          deliver env client_id (handle_neural_transport env st client_id data)) \<and>
     (message_type = JStr ''protocol_introspection'' \<longrightarrow>
        process_message env st client_id message =
          deliver env client_id (handle_protocol_introspection env st client_id data))"
  using assms
  by (simp add: process_message_def supported_message_types_def Let_def timestamp_def
      deliver_def send_response_def dict_get_def format_value_def error_response_def)

theorem process_message_dispatch_witness:
  "\<forall>str_of.
   sent (fst (process_message
                (example_env str_of
                   [(''{\"topic\": \"x\"}'', Loaded (JObj [(''topic'', JStr ''x'')]))])
                example_state ''client_1'' ''{\"topic\": \"x\"}'')) =
     [(1, JObj [(''type'', JStr ''error''),
                (''error'', JStr ''Unknown message type: unknown''),
                (''timestamp'', JStr ''2024-01-01T00:00:00'')])] \<and>
   sent (fst (process_message
                (example_env str_of [(''{\"type\": 7}'', Loaded (JObj [(''type'', JInt 7)]))])
                example_state ''client_1'' ''{\"type\": 7}'')) =
     [(1, JObj [(''type'', JStr ''error''),
                (''error'', JStr (''Unknown message type: '' @ str_of (JInt 7))),
                (''timestamp'', JStr ''2024-01-01T00:00:00'')])] \<and>
   process_message
     (example_env str_of
        [(''{\"type\": \"neural_transport\"}'', Loaded (JObj [(''type'', JStr ''neural_transport'')]))])
     example_state ''client_1'' ''{\"type\": \"neural_transport\"}'' =
     deliver
       (example_env str_of
          [(''{\"type\": \"neural_transport\"}'', Loaded (JObj [(''type'', JStr ''neural_transport'')]))])
       ''client_1''
       (handle_neural_transport
          (example_env str_of
             [(''{\"type\": \"neural_transport\"}'',
               Loaded (JObj [(''type'', JStr ''neural_transport'')]))])
          example_state ''client_1'' [(''type'', JStr ''neural_transport'')])"
proof
  fix str_of
  let ?m1 = "''{\"topic\": \"x\"}''"
  let ?e1 = "example_env str_of [(?m1, Loaded (JObj [(''topic'', JStr ''x'')]))]"
  have "loads ?e1 ?m1 = Loaded (JObj [(''topic'', JStr ''x'')])" by (rule example_loads)
  from process_message_dispatch [OF this refl, of example_state "''client_1''" 1]
  have 1: "sent (fst (process_message ?e1 example_state ''client_1'' ?m1)) =
     [(1, JObj [(''type'', JStr ''error''),
                (''error'', JStr ''Unknown message type: unknown''),
                (''timestamp'', JStr ''2024-01-01T00:00:00'')])]"
    by (simp add: example_client example_dumps example_now example_sent dict_get_def)
  let ?m2 = "''{\"type\": 7}''"
  let ?e2 = "example_env str_of [(?m2, Loaded (JObj [(''type'', JInt 7)]))]"
  have "loads ?e2 ?m2 = Loaded (JObj [(''type'', JInt 7)])" by (rule example_loads)
  from process_message_dispatch [OF this refl, of example_state "''client_1''" 1]
  have 2: "sent (fst (process_message ?e2 example_state ''client_1'' ?m2)) =
     [(1, JObj [(''type'', JStr ''error''),
                (''error'', JStr (''Unknown message type: '' @ str_of (JInt 7))),
                (''timestamp'', JStr ''2024-01-01T00:00:00'')])]"
    by (simp add: example_client example_dumps example_now example_sent dict_get_def
        supported_message_types_def format_value_def example_repr)
  let ?m3 = "''{\"type\": \"neural_transport\"}''"
  let ?e3 = "example_env str_of [(?m3, Loaded (JObj [(''type'', JStr ''neural_transport'')]))]"
  have "loads ?e3 ?m3 = Loaded (JObj [(''type'', JStr ''neural_transport'')])"
    by (rule example_loads)
  from process_message_dispatch [OF this refl, of example_state "''client_1''" 1]
  have 3: "process_message ?e3 example_state ''client_1'' ?m3 =
     deliver ?e3 ''client_1''
       (handle_neural_transport ?e3 example_state ''client_1'' [(''type'', JStr ''neural_transport'')])"
    by (simp add: dict_get_def)
  from 1 2 3 show "sent (fst (process_message ?e1 example_state ''client_1'' ?m1)) =
     [(1, JObj [(''type'', JStr ''error''),
                (''error'', JStr ''Unknown message type: unknown''),
                (''timestamp'', JStr ''2024-01-01T00:00:00'')])] \<and>
   sent (fst (process_message ?e2 example_state ''client_1'' ?m2)) =
     [(1, JObj [(''type'', JStr ''error''),
                (''error'', JStr (''Unknown message type: '' @ str_of (JInt 7))),
                (''timestamp'', JStr ''2024-01-01T00:00:00'')])] \<and>
   process_message ?e3 example_state ''client_1'' ?m3 =
     deliver ?e3 ''client_1''
       (handle_neural_transport ?e3 example_state ''client_1'' [(''type'', JStr ''neural_transport'')])"
    by blast
qed

text \<open>
  A well-formed JSON object need not be parsed.  On the object whose only member is
  an integer of 4301 digits, \<open>json.loads\<close> raises \<open>ValueError\<close>; the message has no
  \<open>type\<close> field, and the client is sent the message of the exception, not
  \<open>Unknown message type: unknown\<close>.
\<close>

theorem process_message_long_integer_counterexample:
  "\<forall>str_of.
     sent (fst (process_message
                  (example_env str_of [(long_integer_message, Raises long_integer_error)])
                  example_state ''client_1'' long_integer_message)) =
       [(1, JObj [(''type'', JStr ''error''),
                  (''error'', JStr (''Exceeds the limit (4300 digits) for integer string conversion: '' @
                     ''value has 4301 digits; use sys.set_int_max_str_digits() to increase the limit'')),
                  (''timestamp'', JStr ''2024-01-01T00:00:00'')])]"
proof
  fix str_of
  let ?env = "example_env str_of [(long_integer_message, Raises long_integer_error)]"
  have 1: "process_message ?env example_state ''client_1'' long_integer_message =
      send_error ?env example_state ''client_1'' long_integer_error"
    by (rule process_message_loads_raises) (rule example_loads)
  show "sent (fst (process_message ?env example_state ''client_1'' long_integer_message)) =
       [(1, JObj [(''type'', JStr ''error''),
                  (''error'', JStr (''Exceeds the limit (4300 digits) for integer string conversion: '' @
                     ''value has 4301 digits; use sys.set_int_max_str_digits() to increase the limit'')),
                  (''timestamp'', JStr ''2024-01-01T00:00:00'')])]"
    unfolding 1
    by (simp add: send_error_sent example_client example_dumps example_now example_sent
        error_response_def long_integer_error_def)
qed
section \<open>Results: hover\<close>

lemma find_start_returns:
  "0 \<le> start \<Longrightarrow> start \<le> int (length line) \<Longrightarrow>
   \<exists>s. find_start line start = Inr s \<and> 0 \<le> s \<and> s \<le> start"
proof (induction line start rule: find_start.induct)
  case (1 line start)
  show ?case
  proof (cases "start > 0")
    case False
    with "1.prems" show ?thesis by (subst find_start.simps) simp
  next
    case True
    with "1.prems" have idx: "py_index line (start - 1) = Inr (line ! nat (start - 1))"
      by (simp add: py_index_def)
    show ?thesis
    proof (cases "is_word_char (line ! nat (start - 1))")
      case False
      with True idx "1.prems" show ?thesis by (subst find_start.simps) simp
    next
      case w: True
      from "1.IH" [OF True idx w] True "1.prems"
      obtain s where "find_start line (start - 1) = Inr s" "0 \<le> s" "s \<le> start - 1" by auto
      with True idx w show ?thesis by (subst find_start.simps) auto
    qed
  qed
qed

lemma find_end_returns:
  "0 \<le> e \<Longrightarrow> \<exists>s. find_end line e = Inr s \<and> e \<le> s"
proof (induction line e rule: find_end.induct)
  case (1 line e)
  show ?case
  proof (cases "e < int (length line)")
    case False
    then show ?thesis by (subst find_end.simps) simp
  next
    case True
    with "1.prems" have idx: "py_index line e = Inr (line ! nat e)"
      by (simp add: py_index_def)
    show ?thesis
    proof (cases "is_word_char (line ! nat e)")
      case False
      with True idx show ?thesis by (subst find_end.simps) simp
    next
      case w: True
      from "1.IH" [OF True idx w] "1.prems"
      obtain s where "find_end line (e + 1) = Inr s" "e + 1 \<le> s" by auto
      with True idx w show ?thesis by (subst find_end.simps) auto
    qed
  qed
qed

lemma get_word_at_position_returns:
  assumes "0 \<le> get_int (pos_line pos)" "0 \<le> get_int (pos_character pos)"
  shows "\<exists>w. get_word_at_position docs uri pos = Inr w"
proof (cases "docs uri")
  case None
  then show ?thesis by (simp add: get_word_at_position_def)
next
  case (Some content)
  let ?lines = "split_on newline content"
  let ?l = "get_int (pos_line pos)" and ?c = "get_int (pos_character pos)"
  show ?thesis
  proof (cases "?l \<ge> int (length ?lines)")
    case True
    with Some show ?thesis by (simp add: get_word_at_position_def)
  next
    case False
    with assms(1) have idx: "py_index ?lines ?l = Inr (?lines ! nat ?l)"
      by (simp add: py_index_def)
    let ?line = "?lines ! nat ?l"
    show ?thesis
    proof (cases "?c \<ge> int (length ?line)")
      case True
      with Some False idx show ?thesis by (simp add: get_word_at_position_def)
    next
      case c: False
      with assms(2) obtain s where s: "find_start ?line ?c = Inr s"
        using find_start_returns [of ?c ?line] by auto
      from assms(2) obtain e where e: "find_end ?line ?c = Inr e"
        using find_end_returns [of ?c ?line] by auto
      from Some False idx c s e show ?thesis
        by (simp add: get_word_at_position_def)
    qed
  qed
qed

lemma generate_hover_info_keys:
  "generate_hover_info word \<noteq> None \<longleftrightarrow>
     word \<in> {''CognitiveCity'', ''ContextualMemoryPattern'', ''OperationalizedRAGFabric'',
       ''NeuralTransportNetwork'', ''particle_swarm'', ''activation_landscape'',
       ''salience_score'', ''enterprise_ai'', ''neural_transport''}"
  unfolding generate_hover_info_def by (simp add: hover_map_def)

lemma generate_hover_info_nonempty: "generate_hover_info word \<noteq> Some []"
  unfolding generate_hover_info_def by (simp add: hover_map_def)

lemma handle_hover_valid_position:
  assumes "0 \<le> get_int (pos_line pos)" "0 \<le> get_int (pos_character pos)"
  shows "\<exists>word. get_word_at_position docs (get_str uri) pos = Inr word \<and>
          handle_hover docs uri pos =
            Inr (if get_str uri \<notin> dom docs \<or> word = None \<or>
                    generate_hover_info (the word) = None
                 then None
                 else Some \<lparr>contents = \<lparr>kind = ''markdown'',
                        markup_value = the (generate_hover_info (the word))\<rparr>\<rparr>)"
proof -
  from get_word_at_position_returns [OF assms] obtain word where
    w: "get_word_at_position docs (get_str uri) pos = Inr word" by blast
  have e: "generate_hover_info [] = None"
    using generate_hover_info_keys [of "[]"] by simp
  show ?thesis
    using w e generate_hover_info_nonempty
    by (auto simp: handle_hover_def Let_def split: option.splits)
qed

lemma find_start_run:
  "c \<le> length line \<Longrightarrow>
   find_start line (int c) =
     Inr (int c - int (length (takeWhile is_word_char (rev (take c line)))))"
proof (induction c)
  case 0
  show ?case by (subst find_start.simps) simp
next
  case (Suc k)
  then have k: "k < length line" by simp
  then have idx: "py_index line (int (Suc k) - 1) = Inr (line ! k)"
    by (simp add: py_index_def)
  have r: "rev (take (Suc k) line) = line ! k # rev (take k line)"
    using k by (simp add: take_Suc_conv_app_nth)
  show ?case
  proof (cases "is_word_char (line ! k)")
    case True
    have "find_start line (int (Suc k)) = find_start line (int k)"
      using True idx by (subst find_start.simps) simp
    with Suc.IH k True r show ?thesis by simp
  next
    case False
    with idx r show ?thesis by (subst find_start.simps) simp
  qed
qed

lemma find_end_run:
  "c \<le> length line \<Longrightarrow>
   find_end line (int c) = Inr (int c + int (length (takeWhile is_word_char (drop c line))))"
proof (induction "length line - c" arbitrary: c)
  case 0
  then have "c = length line" by simp
  then show ?case by (subst find_end.simps) simp
next
  case (Suc n)
  then have c: "c < length line" by simp
  then have idx: "py_index line (int c) = Inr (line ! c)" by (simp add: py_index_def)
  have d: "drop c line = line ! c # drop (Suc c) line"
    using c by (simp add: Cons_nth_drop_Suc)
  show ?case
  proof (cases "is_word_char (line ! c)")
    case True
    have "find_end line (int c) = find_end line (int (Suc c))"
      using True idx c by (subst find_end.simps) (simp add: add.commute)
    moreover from Suc(2) c have "n = length line - Suc c" "Suc c \<le> length line" by simp_all
    ultimately show ?thesis using Suc(1) [of "Suc c"] True d by simp
  next
    case False
    with idx c d show ?thesis by (subst find_end.simps) simp
  qed
qed

lemma takeWhile_rev_take:
  "rev (takeWhile P (rev xs)) = drop (length xs - length (takeWhile P (rev xs))) xs"
proof -
  define n where "n = length (takeWhile P (rev xs))"
  have "takeWhile P (rev xs) = take n (rev xs)"
    unfolding n_def by (rule takeWhile_eq_take)
  then have "rev (takeWhile P (rev xs)) = rev (take n (rev xs))" by (rule arg_cong)
  also have "\<dots> = drop (length xs - n) xs" by (simp add: rev_take)
  finally show ?thesis unfolding n_def .
qed

lemma py_slice_inside:
  assumes "l1 \<le> c" "c + l2 \<le> length line"
  shows "py_slice line (int c - int l1) (int c + int l2) = take (l1 + l2) (drop (c - l1) line)"
proof -
  have a: "int c - int l1 = int (c - l1)" using assms by (simp add: of_nat_diff)
  have b: "int c + int l2 = int (c + l2)" by simp
  have s: "min (int (length line)) (int (c - l1)) = int (c - l1)"
    using assms by (simp add: min_def)
  have e: "min (int (length line)) (int (c + l2)) = int (c + l2)"
    using assms by (simp add: min_def)
  have d: "nat (int (c + l2) - int (c - l1)) = l1 + l2"
    using assms by (simp add: of_nat_diff)
  have n: "\<not> int (c - l1) < 0" "\<not> int (c + l2) < 0" by simp_all
  show ?thesis
    unfolding py_slice_def Let_def a b by (simp only: n if_False s e d nat_int)
qed

lemma py_slice_run:
  assumes "c \<le> length line"
  shows "py_slice line
           (int c - int (length (takeWhile is_word_char (rev (take c line)))))
           (int c + int (length (takeWhile is_word_char (drop c line)))) =
         word_around line c"
proof -
  define l1 where "l1 = length (takeWhile is_word_char (rev (take c line)))"
  define l2 where "l2 = length (takeWhile is_word_char (drop c line))"
  have l1: "l1 \<le> c"
    unfolding l1_def using length_takeWhile_le [of is_word_char "rev (take c line)"] assms
    by simp
  have l2: "c + l2 \<le> length line"
    unfolding l2_def using length_takeWhile_le [of is_word_char "drop c line"] assms by simp
  have "rev (takeWhile is_word_char (rev (take c line))) =
        drop (length (take c line) - l1) (take c line)"
    unfolding l1_def by (rule takeWhile_rev_take)
  then have left: "rev (takeWhile is_word_char (rev (take c line))) = drop (c - l1) (take c line)"
    using assms by (simp add: min_def)
  have right: "takeWhile is_word_char (drop c line) = take l2 (drop c line)"
    unfolding l2_def by (rule takeWhile_eq_take)
  have "take (l1 + l2) (drop (c - l1) line) =
        take l1 (drop (c - l1) line) @ take l2 (drop (l1 + (c - l1)) line)"
    by (simp add: take_add add.commute)
  also have "l1 + (c - l1) = c" using l1 by simp
  also have "take l1 (drop (c - l1) line) = drop (c - l1) (take c line)"
    using l1 by (simp add: drop_take)
  finally have "take (l1 + l2) (drop (c - l1) line) = word_around line c"
    unfolding word_around_def left right .
  with py_slice_inside [OF l1 l2] show ?thesis unfolding l1_def l2_def by simp
qed

lemma get_word_at_position_word:
  assumes "docs uri = Some content"
    and "0 \<le> get_int (pos_line pos)" "0 \<le> get_int (pos_character pos)"
    and "nat (get_int (pos_line pos)) < length (split_on newline content)"
    and "line = split_on newline content ! nat (get_int (pos_line pos))"
    and "c = nat (get_int (pos_character pos))" "c < length line"
  shows "get_word_at_position docs uri pos =
           Inr (if word_around line c = [] then None else Some (word_around line c))"
proof -
  define l1 where "l1 = length (takeWhile is_word_char (rev (take c line)))"
  define l2 where "l2 = length (takeWhile is_word_char (drop c line))"
  from assms have idx: "py_index (split_on newline content) (get_int (pos_line pos)) = Inr line"
    by (simp add: py_index_def)
  from assms have cc: "get_int (pos_character pos) = int c" "c \<le> length line" by simp_all
  have range: "\<not> int (length (split_on newline content)) \<le> get_int (pos_line pos)"
    "\<not> int (length line) \<le> int c"
    using assms by simp_all
  have fs: "find_start line (int c) = Inr (int c - int l1)"
    unfolding l1_def by (rule find_start_run [OF cc(2)])
  have fe: "find_end line (int c) = Inr (int c + int l2)"
    unfolding l2_def by (rule find_end_run [OF cc(2)])
  have sl: "py_slice line (int c - int l1) (int c + int l2) = word_around line c"
    unfolding l1_def l2_def by (rule py_slice_run [OF cc(2)])
  have "word_around line c = [] \<longleftrightarrow> l1 = 0 \<and> l2 = 0"
    by (simp add: word_around_def l1_def l2_def)
  also have "\<dots> \<longleftrightarrow> \<not> (int c - int l1 < int c + int l2)" by linarith
  finally have w: "(int c - int l1 < int c + int l2) \<longleftrightarrow> word_around line c \<noteq> []" by simp
  show ?thesis
    unfolding get_word_at_position_def Let_def
    by (simp only: assms(1) option.case range if_False idx sum.case cc(1) fs fe sl w)
      simp
qed

lemma handle_hover_word:
  assumes "docs (get_str uri) = Some content"
    and "0 \<le> get_int (pos_line pos)" "0 \<le> get_int (pos_character pos)"
    and "nat (get_int (pos_line pos)) < length (split_on newline content)"
    and "line = split_on newline content ! nat (get_int (pos_line pos))"
    and "c = nat (get_int (pos_character pos))" "c < length line"
  shows "handle_hover docs uri pos =
           Inr (case generate_hover_info (word_around line c) of
                  None \<Rightarrow> None
                | Some hover_info \<Rightarrow>
                    Some \<lparr>contents = \<lparr>kind = ''markdown'', markup_value = hover_info\<rparr>\<rparr>)"
proof -
  have e: "generate_hover_info [] = None"
    using generate_hover_info_keys [of "[]"] by simp
  from assms(1) have d: "get_str uri \<in> dom docs" by auto
  show ?thesis
    using get_word_at_position_word [of docs "get_str uri" content pos line c, OF assms]
      d e generate_hover_info_nonempty
    by (auto simp: handle_hover_def Let_def split: option.splits)
qed

text \<open>
  Claim C5.  For a position with non-negative line and character,
  \<open>handle_hover_valid_position\<close> and \<open>handle_hover_word\<close> above show what the claim
  states: the handler returns, with \<open>None\<close> when the URI is not open, when there is no
  word at the position or when the word is not a key of the hover map, and otherwise
  with the markdown contents holding the map's string for the word.  The guards of
  \<open>_get_word_at_position\<close> bound line and character from above only.  With the
  document \<open>abc\<close> open and a hover request at line 0, character -5, no guard applies,
  \<open>line[end]\<close> raises \<open>IndexError\<close> and the handler returns no result.
\<close>

theorem handle_hover_negative_character:
  "handle_hover hover_documents (Some ''file:///a.cog'')
     \<lparr>pos_line = Some 0, pos_character = Some (- 5)\<rparr> = Inl IndexError"
proof -
  have "find_start ''abc'' (- 5) = Inr (- 5)"
    by (subst find_start.simps) simp
  moreover have "find_end ''abc'' (- 5) = Inl IndexError"
    by (subst find_end.simps) (simp add: py_index_def)
  ultimately have "get_word_at_position hover_documents ''file:///a.cog''
     \<lparr>pos_line = Some 0, pos_character = Some (- 5)\<rparr> = Inl IndexError"
    by (simp add: get_word_at_position_def hover_documents_def get_int_def py_index_def)
  then show ?thesis
    by (simp add: handle_hover_def get_str_def hover_documents_def)
qed

section \<open>Results: validating a blueprint\<close>

lemma check_version_pinning_eq:
  "check_version_pinning ps vr =
     vr\<lparr>has_version_pinning := has_version_pinning vr \<and>
          \<not> (\<exists>p\<in>set ps. pkg_version p = [] \<or> pkg_version p = ''latest'')\<rparr>"
  by (induction ps arbitrary: vr) auto

lemma check_checksums_eq:
  "check_checksums ps vr =
     vr\<lparr>has_checksums := has_checksums vr \<and>
          \<not> (\<exists>p\<in>set ps. checksum p = None \<or> checksum p = Some [])\<rparr>"
  by (induction ps arbitrary: vr) auto

text \<open>
  Claim C6, as the code has it.  \<open>has_version_pinning\<close> is \<open>False\<close> exactly when some
  package's version is empty or \<open>"latest"\<close>; \<open>has_checksums\<close> is \<open>False\<close> exactly when
  some package's checksum is \<open>None\<close> or the empty string; \<open>has_hash_manifest\<close> is \<open>True\<close>
  exactly when the hash manifest is non-empty; \<open>build_deterministic\<close> and
  \<open>dependencies_resolved\<close> are \<open>True\<close> for every blueprint.
\<close>

theorem validate_reproducibility_fields:
  "(has_version_pinning (validate_reproducibility b) = False \<longleftrightarrow>
      (\<exists>p\<in>set (packages (environment b)). pkg_version p = [] \<or> pkg_version p = ''latest'')) \<and>
   (has_checksums (validate_reproducibility b) = False \<longleftrightarrow>
      (\<exists>p\<in>set (packages (environment b)). checksum p = None \<or> checksum p = Some [])) \<and>
   (has_hash_manifest (validate_reproducibility b) = True \<longleftrightarrow> hash_manifest b \<noteq> []) \<and>
   build_deterministic (validate_reproducibility b) = True \<and>
   dependencies_resolved (validate_reproducibility b) = True"
  by (simp add: validate_reproducibility_def Let_def check_version_pinning_eq
      check_checksums_eq)

theorem validate_reproducibility_fields_witness:
  "has_checksums (validate_reproducibility blueprint_empty_checksum) = False \<and>
   has_version_pinning (validate_reproducibility blueprint_empty_checksum) = True \<and>
   has_hash_manifest (validate_reproducibility blueprint_empty_checksum) = False"
  using validate_reproducibility_fields [of blueprint_empty_checksum]
  by (simp add: blueprint_empty_checksum_def package_empty_checksum_def)

text \<open>
  Claim C6 as stated reads \<open>has_checksums\<close> as \<open>False\<close> iff some checksum is unset.  A
  package whose checksum is set to the empty string refutes that: no checksum is unset,
  yet \<open>has_checksums\<close> is \<open>False\<close>.
\<close>

theorem validate_reproducibility_unset_counterexample:
  "\<not> (has_checksums (validate_reproducibility blueprint_empty_checksum) = False \<longleftrightarrow>
      (\<exists>p\<in>set (packages (environment blueprint_empty_checksum)). checksum p = None))"
  by (simp add: validate_reproducibility_def blueprint_empty_checksum_def
      package_empty_checksum_def)

section \<open>Results: the particle swarm\<close>

lemma evaluate_memory_encoding_fields:
  assumes "priority_profile p = priority_profile q" "salience_score p = salience_score q"
  shows "evaluate_memory_encoding ar e p = evaluate_memory_encoding ar e q"
  using assms by (simp add: evaluate_memory_encoding_def)

lemma update_coordinate_fields:
  assumes "salience_score p = salience_score q"
  shows "update_coordinate ar p = update_coordinate ar q"
  by (intro ext) (simp only: update_coordinate_def assms)

lemma update_particle_dynamics_fields:
  assumes "salience_score p = salience_score q"
  shows "update_particle_dynamics ar particle swarm p = update_particle_dynamics ar particle swarm q"
  by (simp only: update_particle_dynamics_def update_coordinate_fields [OF assms, of ar])

lemma swarm_step_fields:
  assumes "priority_profile p = priority_profile q" "salience_score p = salience_score q"
  shows "swarm_step ar p = swarm_step ar q"
  by (intro ext)
    (simp only: swarm_step_def evaluate_memory_encoding_fields [OF assms, of ar]
      update_particle_dynamics_fields [OF assms(2), of ar])

lemma initial_positions:
  "map position (initial_swarm ar) = replicate 10 (replicate 768 (lit ar (1 / 2)))"
  by (simp add: initial_swarm_def map_replicate_const o_def)

lemma initial_velocities:
  "map velocity (initial_swarm ar) = replicate 10 (replicate 768 (lit ar (1 / 10)))"
  by (simp add: initial_swarm_def map_replicate_const o_def)

lemma particle_swarm_optimize_fields:
  assumes "priority_profile p = priority_profile q" "salience_score p = salience_score q"
  shows "particle_swarm_optimize ar p = particle_swarm_optimize ar q"
  by (simp only: particle_swarm_optimize_def swarm_step_fields [OF assms, of ar])

text \<open>
  Claim C8, as \<open>particle_swarm_optimize\<close> of \<open>cognitive_ecology_demo.py\<close> has it.  No
  position is drawn at random: every particle starts at the position \<open>[0.5] * 768\<close>
  with the velocity \<open>[0.1] * 768\<close>, whatever the pattern.  The result is determined
  by the pattern, in fact by its \<open>priority_profile\<close> and \<open>salience_score\<close> alone: two
  runs on patterns that agree on these two fields return the same embedding vector, or
  raise the same exception.
\<close>

theorem particle_swarm_deterministic:
  "map position (initial_swarm ar) = replicate 10 (replicate 768 (lit ar (1 / 2))) \<and>
   map velocity (initial_swarm ar) = replicate 10 (replicate 768 (lit ar (1 / 10))) \<and>
   (priority_profile p = priority_profile q \<and> salience_score p = salience_score q \<longrightarrow>
      particle_swarm_optimize ar p = particle_swarm_optimize ar q)"
proof (intro conjI impI)
  show "map position (initial_swarm ar) = replicate 10 (replicate 768 (lit ar (1 / 2)))"
    by (rule initial_positions)
  show "map velocity (initial_swarm ar) = replicate 10 (replicate 768 (lit ar (1 / 10)))"
    by (rule initial_velocities)
next
  assume "priority_profile p = priority_profile q \<and> salience_score p = salience_score q"
  then show "particle_swarm_optimize ar p = particle_swarm_optimize ar q"
    by (intro particle_swarm_optimize_fields) simp_all
qed

theorem particle_swarm_deterministic_witness:
  "priority_profile pattern_one = priority_profile pattern_two \<and>
   salience_score pattern_one = salience_score pattern_two \<and>
   pattern_id pattern_one \<noteq> pattern_id pattern_two \<and>
   (\<forall>ar. particle_swarm_optimize ar pattern_one = particle_swarm_optimize ar pattern_two)"
proof -
  have f: "priority_profile pattern_one = priority_profile pattern_two"
    "salience_score pattern_one = salience_score pattern_two"
    "pattern_id pattern_one \<noteq> pattern_id pattern_two"
    by (simp_all add: pattern_one_def pattern_two_def)
  have "particle_swarm_optimize ar pattern_one = particle_swarm_optimize ar pattern_two" for ar
    using particle_swarm_deterministic [of ar pattern_one pattern_two] f by blast
  with f show ?thesis by blast
qed

text \<open>
  Claim C8 as stated has the positions drawn at random for some pattern, and a second
  run on the same pattern returning another vector.  For every pattern the ten
  particles start at one and the same position, whose 768 coordinates are the
  literal \<open>0.5\<close>; and a second run on the pattern as \<open>encode_memory_pattern\<close> leaves it
  after a first run, with the result \<open>v\<close> of that run stored in \<open>embedding_vector\<close>,
  returns what the first run returned.
\<close>

theorem particle_swarm_fixed_start_counterexample:
  "\<forall>(ar :: rat arith) (pattern :: rat ContextualMemoryPattern) v.
     set (map position (initial_swarm ar)) = {replicate 768 (lit ar (1 / 2))} \<and>
     particle_swarm_optimize ar (pattern\<lparr>embedding_vector := v\<rparr>) =
       particle_swarm_optimize ar pattern"
proof (intro allI conjI)
  fix ar :: "rat arith" and pattern :: "rat ContextualMemoryPattern" and v
  show "set (map position (initial_swarm ar)) = {replicate 768 (lit ar (1 / 2))}"
    by (simp only: initial_positions set_replicate_conv_if) simp
  show "particle_swarm_optimize ar (pattern\<lparr>embedding_vector := v\<rparr>) =
       particle_swarm_optimize ar pattern"
    by (rule particle_swarm_optimize_fields) simp_all
qed
section \<open>Results: the document store\<close>

lemma process_notifications_snoc:
  "process_notifications (ns @ [n]) = process_notification (process_notifications ns) n"
  by (simp add: process_notifications_def)

lemma currently_open_snoc:
  "currently_open (ns @ [n]) u \<longleftrightarrow> opens n u \<or> (currently_open ns u \<and> \<not> closes n u)"
proof
  assume "currently_open (ns @ [n]) u"
  then obtain i where i: "i < length (ns @ [n])" "opens ((ns @ [n]) ! i) u"
    "\<forall>j<length (ns @ [n]). i < j \<longrightarrow> \<not> closes ((ns @ [n]) ! j) u"
    unfolding currently_open_def by blast
  show "opens n u \<or> (currently_open ns u \<and> \<not> closes n u)"
  proof (cases "i = length ns")
    case True
    with i(2) show ?thesis by simp
  next
    case False
    with i(1) have il: "i < length ns" by simp
    with i(2) have o: "opens (ns ! i) u" by (simp add: nth_append)
    have "\<forall>j<length ns. i < j \<longrightarrow> \<not> closes (ns ! j) u"
    proof (intro allI impI)
      fix j assume j: "j < length ns" "i < j"
      with i(3) have "\<not> closes ((ns @ [n]) ! j) u" by simp
      with j show "\<not> closes (ns ! j) u" by (simp add: nth_append)
    qed
    with il o have "currently_open ns u" unfolding currently_open_def by blast
    moreover from i(3) [rule_format, of "length ns"] il have "\<not> closes n u" by simp
    ultimately show ?thesis by simp
  qed
next
  assume a: "opens n u \<or> (currently_open ns u \<and> \<not> closes n u)"
  show "currently_open (ns @ [n]) u"
  proof (cases "opens n u")
    case True
    then have "length ns < length (ns @ [n]) \<and> opens ((ns @ [n]) ! length ns) u \<and>
      (\<forall>j<length (ns @ [n]). length ns < j \<longrightarrow> \<not> closes ((ns @ [n]) ! j) u)" by simp
    then show ?thesis unfolding currently_open_def by blast
  next
    case False
    with a obtain i where i: "i < length ns" "opens (ns ! i) u"
      "\<forall>j<length ns. i < j \<longrightarrow> \<not> closes (ns ! j) u" and nc: "\<not> closes n u"
      unfolding currently_open_def by blast
    have "\<forall>j<length (ns @ [n]). i < j \<longrightarrow> \<not> closes ((ns @ [n]) ! j) u"
    proof (intro allI impI)
      fix j assume j: "j < length (ns @ [n])" "i < j"
      show "\<not> closes ((ns @ [n]) ! j) u"
      proof (cases "j = length ns")
        case True
        with nc show ?thesis by simp
      next
        case False
        with j have "j < length ns" by simp
        with i(3) j(2) show ?thesis by (simp add: nth_append)
      qed
    qed
    moreover from i have "i < length (ns @ [n])" "opens ((ns @ [n]) ! i) u"
      by (simp_all add: nth_append)
    ultimately show ?thesis unfolding currently_open_def by blast
  qed
qed

lemma most_recent_first_change_snoc:
  "most_recent_first_change (ns @ [n]) u =
     (if supplies n u then Some (first_change_text n) else most_recent_first_change ns u)"
  by (simp add: most_recent_first_change_def most_recent_def Let_def)

lemma opens_supplies: "opens n u \<Longrightarrow> supplies n u"
  by (cases n) auto

lemma document_store_step:
  assumes "dom docs = {u. currently_open ns u}"
    and "\<forall>u. currently_open ns u \<longrightarrow> docs u = most_recent_first_change ns u"
  shows "dom (process_notification docs n) = {u. currently_open (ns @ [n]) u} \<and>
         (\<forall>u. currently_open (ns @ [n]) u \<longrightarrow>
              process_notification docs n u = most_recent_first_change (ns @ [n]) u)"
proof (cases n)
  case (DidOpen uri t)
  with assms show ?thesis
    by (auto simp: currently_open_snoc most_recent_first_change_snoc handle_did_open_def)
next
  case (DidChange uri changes)
  with assms show ?thesis
    by (auto simp: currently_open_snoc most_recent_first_change_snoc handle_did_change_def)
next
  case (DidClose uri)
  with assms show ?thesis
    by (auto simp: currently_open_snoc most_recent_first_change_snoc handle_did_close_def)
qed

lemma document_store_all:
  "dom (process_notifications ns) = {u. currently_open ns u} \<and>
   (\<forall>u. currently_open ns u \<longrightarrow> process_notifications ns u = most_recent_first_change ns u)"
proof (induction ns rule: rev_induct)
  case Nil
  show ?case by (simp add: process_notifications_def currently_open_def)
next
  case (snoc n ns)
  then have "dom (process_notifications ns) = {u. currently_open ns u}"
    and "\<forall>u. currently_open ns u \<longrightarrow> process_notifications ns u = most_recent_first_change ns u"
    by simp_all
  from document_store_step [OF this] show ?case
    by (simp add: process_notifications_snoc)
qed

text \<open>
  Claim C9.  After any sequence of \<open>didOpen\<close>, \<open>didChange\<close> and \<open>didClose\<close>
  notifications, starting from the empty store, the store holds exactly the URIs that
  were opened and not closed afterwards.  Each of them is mapped to the text of the
  most recent \<open>didOpen\<close>, or \<open>didChange\<close> with a non-empty \<open>contentChanges\<close>, for it,
  where the text of a \<open>didChange\<close> is that of its FIRST content change: \<open>changes[0]\<close>
  is what \<open>_handle_did_change\<close> stores, whatever changes follow it in the list.  A
  \<open>didChange\<close> whose \<open>contentChanges\<close> is empty, or whose URI is not in the store,
  leaves the store as it is.
\<close>

theorem document_store_invariant:
  "dom (process_notifications ns) = {u. currently_open ns u} \<and>
   (\<forall>u. currently_open ns u \<longrightarrow>
        process_notifications ns u = most_recent_first_change ns u) \<and>
   (changes = [] \<or> get_str uri \<notin> dom docs \<longrightarrow> handle_did_change docs uri changes = docs)"
  using document_store_all [of ns] by (auto simp: handle_did_change_def)

theorem document_store_invariant_witness:
  "currently_open example_notifications ''a'' \<and>
   process_notifications example_notifications ''a'' = Some ''y'' \<and>
   most_recent_first_change example_notifications ''a'' = Some ''y'' \<and>
   \<not> currently_open example_notifications ''b'' \<and>
   process_notifications example_notifications ''b'' = None \<and>
   handle_did_change Map.empty (Some ''b'') [Some ''v''] = Map.empty"
proof -
  note inv = document_store_invariant
    [of example_notifications "[Some ''v'']" "Some ''b''" Map.empty]
  have store: "process_notifications example_notifications = [''a'' \<mapsto> ''y'']"
    by (simp add: example_notifications_def process_notifications_def handle_did_open_def
        handle_did_change_def handle_did_close_def get_str_def)
  have a: "process_notifications example_notifications ''a'' = Some ''y''"
    and b: "process_notifications example_notifications ''b'' = None"
    by (simp_all add: store)
  from inv [THEN conjunct1] have
    d: "\<And>u. currently_open example_notifications u \<longleftrightarrow>
          u \<in> dom (process_notifications example_notifications)"
    by (simp only: mem_Collect_eq)
  from a have oa: "currently_open example_notifications ''a''"
    by (simp only: d) (simp add: domIff)
  from b have ob: "\<not> currently_open example_notifications ''b''"
    by (simp only: d) (simp add: domIff)
  from inv [THEN conjunct2, THEN conjunct1, rule_format, OF oa] a
  have m: "most_recent_first_change example_notifications ''a'' = Some ''y''" by simp
  have "get_str (Some ''b'') \<notin> dom (Map.empty :: documents)" by simp
  then have c: "handle_did_change Map.empty (Some ''b'') [Some ''v''] = Map.empty"
    using inv [THEN conjunct2, THEN conjunct2] by blast
  from oa a m ob b c show ?thesis by blast
qed

text \<open>
  With the full text that the notification supplies the invariant fails.  After
  \<open>didOpen\<close> of \<open>a\<close> with text \<open>x\<close> and a \<open>didChange\<close> of \<open>a\<close> with the content changes
  \<open>y\<close> then \<open>z\<close>, the document is open and the text supplied last is \<open>z\<close>; the store
  holds \<open>y\<close>.
\<close>

theorem document_store_last_change_counterexample:
  "currently_open
     [DidOpen (Some ''a'') (Some ''x''), DidChange (Some ''a'') [Some ''y'', Some ''z'']] ''a'' \<and>
   most_recent_text
     [DidOpen (Some ''a'') (Some ''x''), DidChange (Some ''a'') [Some ''y'', Some ''z'']] ''a''
     = Some ''z'' \<and>
   process_notifications
     [DidOpen (Some ''a'') (Some ''x''), DidChange (Some ''a'') [Some ''y'', Some ''z'']] ''a''
     = Some ''y''"
proof -
  have "currently_open
     ([DidOpen (Some ''a'') (Some ''x'')] @ [DidChange (Some ''a'') [Some ''y'', Some ''z'']]) ''a''"
    by (simp only: currently_open_snoc) (simp add: currently_open_def get_str_def)
  then show ?thesis
    by (simp add: most_recent_text_def most_recent_def process_notifications_def
        handle_did_open_def handle_did_change_def get_str_def)
qed
section \<open>Results: the hash manifest\<close>

lemma asdict_blueprint_pop:
  "AList.delete ''hash_manifest'' (asdict_blueprint (b\<lparr>hash_manifest := m\<rparr>)) =
   AList.delete ''hash_manifest'' (asdict_blueprint b)"
  by (simp add: asdict_blueprint_def)

text \<open>
  Claim C10.  The manifest does not depend on the blueprint's own \<open>hash_manifest\<close> field:
  replacing that field by any value \<open>m\<close> leaves the generated manifest the same.  In
  particular, generating the manifest again after it has been assigned, as
  \<open>create_ai_workbench_blueprint\<close> assigns it, yields the identical manifest.  This holds
  for every serializer \<open>dumps\<close> and every hash function \<open>sha256\<close>.
\<close>

theorem generate_hash_manifest_idempotent:
  "generate_hash_manifest dumps sha256 (b\<lparr>hash_manifest := m\<rparr>) =
     generate_hash_manifest dumps sha256 b \<and>
   generate_hash_manifest dumps sha256
     (b\<lparr>hash_manifest := generate_hash_manifest dumps sha256 b\<rparr>) =
     generate_hash_manifest dumps sha256 b"
  by (simp add: generate_hash_manifest_def asdict_blueprint_pop)

end
